theory Spec2Isabelle
  imports Complex_Main
begin

section \<open>The dedup cache (src/lambda.ts, src/api/events.ts: isEventProcessed)\<close>

text \<open>
  The module keeps two process-wide variables: the set \<^verbatim>\<open>processedEvents\<close> and the
  array \<^verbatim>\<open>processedEventsQueue\<close>. They are the two fields of the state that
  \<^verbatim>\<open>isEventProcessed\<close> reads and updates; the function returns its boolean together
  with the new state.
\<close>

record cache =
  processedEvents :: "string set"
  processedEventsQueue :: "string list"

definition MAX_CACHE_SIZE :: nat where
  "MAX_CACHE_SIZE = 100"

definition emptyCache :: cache where
  "emptyCache = \<lparr>processedEvents = {}, processedEventsQueue = []\<rparr>"

text \<open>
  \<^verbatim>\<open>shift()\<close> removes and returns the head of the queue (\<^verbatim>\<open>undefined\<close> on an empty
  array). The guard \<^verbatim>\<open>if (oldestEventId)\<close> is a truthiness test: it skips the
  \<^verbatim>\<open>delete\<close> for \<^verbatim>\<open>undefined\<close> and also for the empty string.
\<close>

definition isEventProcessed :: "string \<Rightarrow> cache \<Rightarrow> bool \<times> cache" where
  "isEventProcessed eventId c =
     (if eventId \<in> processedEvents c then (True, c)
      else
        let c1 = c\<lparr>processedEvents := insert eventId (processedEvents c),
                   processedEventsQueue := processedEventsQueue c @ [eventId]\<rparr>
        in if length (processedEventsQueue c1) > MAX_CACHE_SIZE then
             (case processedEventsQueue c1 of
                [] \<Rightarrow> (False, c1)
              | oldestEventId # rest \<Rightarrow>
                  (False,
                   c1\<lparr>processedEventsQueue := rest,
                      processedEvents :=
                        (if oldestEventId \<noteq> [] then processedEvents c1 - {oldestEventId}
                         else processedEvents c1)\<rparr>))
           else (False, c1))"

text \<open>A sequence of calls, threading the state; the results are dropped.\<close>

fun feed :: "string list \<Rightarrow> cache \<Rightarrow> cache" where
  "feed [] c = c"
| "feed (x # xs) c = feed xs (snd (isEventProcessed x c))"

text \<open>How many calls of a sequence return false, that is, record a new identifier.\<close>

fun misses :: "string list \<Rightarrow> cache \<Rightarrow> nat" where
  "misses [] c = 0"
| "misses (x # xs) c =
     (if fst (isEventProcessed x c) then 0 else 1) + misses xs (snd (isEventProcessed x c))"

text \<open>What every reachable state satisfies.\<close>

definition cache_inv :: "cache \<Rightarrow> bool" where
  "cache_inv c \<longleftrightarrow>
     distinct (processedEventsQueue c) \<and>
     set (processedEventsQueue c) \<subseteq> processedEvents c \<and>
     length (processedEventsQueue c) \<le> MAX_CACHE_SIZE"

text \<open>Pairwise distinct, non-empty identifiers for concrete runs: e, ee, eee, ...\<close>

definition ids :: "nat \<Rightarrow> string list" where
  "ids n = map (\<lambda>i. replicate (Suc i) CHR ''e'') [0..<n]"


section \<open>JavaScript values, errors and built-ins\<close>

datatype js_error =
    SyntaxError string
  | TypeError string
  | RangeError string
  | Error string
  | ApiError string
  | TimeoutError nat

type_synonym 'a result = "js_error + 'a"

definition error_message :: "js_error \<Rightarrow> string" where
  "error_message e =
     (case e of SyntaxError m \<Rightarrow> m | TypeError m \<Rightarrow> m | RangeError m \<Rightarrow> m
      | Error m \<Rightarrow> m | ApiError m \<Rightarrow> m | TimeoutError ms \<Rightarrow> ''timeout'')"

text \<open>
  An optional string property: \<open>None\<close> is \<^verbatim>\<open>undefined\<close> (the property is absent,
  \<^verbatim>\<open>'k' in obj\<close> is false). JavaScript truthiness of such a value: absent and the empty
  string are falsy.
\<close>

definition truthy :: "string option \<Rightarrow> bool" where
  "truthy v = (case v of None \<Rightarrow> False | Some s \<Rightarrow> s \<noteq> [])"

text \<open>\<^verbatim>\<open>try { body } catch (error) { handler }\<close> on results.\<close>

definition try_catch :: "'a result \<Rightarrow> (js_error \<Rightarrow> 'a result) \<Rightarrow> 'a result" where
  "try_catch body handler = (case body of Inl e \<Rightarrow> handler e | Inr v \<Rightarrow> Inr v)"

text \<open>
  \<^verbatim>\<open>JSON.stringify\<close> of a string: quotes, backslashes and control characters are
  escaped, every other character is copied.
\<close>

definition hex_digit :: "nat \<Rightarrow> char" where
  "hex_digit n = ''0123456789abcdef'' ! (n mod 16)"

definition JSON_escape :: "char \<Rightarrow> string" where
  "JSON_escape c =
     (if c = CHR 0x22 then [CHR 0x5C, CHR 0x22]
      else if c = CHR 0x5C then [CHR 0x5C, CHR 0x5C]
      else if c = CHR 0x08 then [CHR 0x5C, CHR ''b'']
      else if c = CHR 0x0C then [CHR 0x5C, CHR ''f'']
      else if c = CHR 0x0A then [CHR 0x5C, CHR ''n'']
      else if c = CHR 0x0D then [CHR 0x5C, CHR ''r'']
      else if c = CHR 0x09 then [CHR 0x5C, CHR ''t'']
      else if (of_char c :: nat) < 32 then
        [CHR 0x5C, CHR ''u'', CHR ''0'', CHR ''0'',
         hex_digit ((of_char c :: nat) div 16), hex_digit (of_char c :: nat)]
      else [c])"

definition JSON_stringify_string :: "string \<Rightarrow> string" where
  "JSON_stringify_string s = [CHR 0x22] @ concat (map JSON_escape s) @ [CHR 0x22]"

text \<open>A string that \<^verbatim>\<open>JSON.stringify\<close> copies unchanged between the quotes.\<close>

definition plain_string :: "string \<Rightarrow> bool" where
  "plain_string s = list_all (\<lambda>c. c \<noteq> CHR 0x22 \<and> c \<noteq> CHR 0x5C \<and> 32 \<le> (of_char c :: nat)) s"


section \<open>Payloads, events, messages\<close>

text \<open>
  The fields of a Slack event that the router and the handlers read, at the types of
  \<^verbatim>\<open>@slack/web-api\<close>: optional strings, and \<^verbatim>\<open>bot_profile\<close> as the flag "present and
  truthy" (it is an object).
\<close>

record slack_event =
  ev_type :: "string option"
  ev_channel :: "string option"
  ev_ts :: "string option"
  ev_thread_ts :: "string option"
  ev_subtype :: "string option"
  ev_channel_type :: "string option"
  ev_bot_id :: "string option"
  ev_bot_profile :: bool
  ev_text :: "string option"

text \<open>
  The envelope: \<^verbatim>\<open>payload.type\<close>, \<^verbatim>\<open>payload.challenge\<close>, \<^verbatim>\<open>payload.event_id\<close>,
  \<^verbatim>\<open>payload.event\<close>, at the types of the Slack Events API (strings, and an event
  object; \<^verbatim>\<open>isEventProcessed\<close> takes the identifier as a string). \<^verbatim>\<open>JSON.parse\<close>
  throws, returns \<^verbatim>\<open>null\<close>, or returns a value whose properties can be read; a value
  that is no object (a number, a string, an array) has none of the four properties.
\<close>

record payload =
  p_type :: "string option"
  p_challenge :: "string option"
  p_event_id :: "string option"
  p_event :: "slack_event option"

datatype json_value = JNull | JPayload payload

text \<open>A message of \<^verbatim>\<open>conversations.replies\<close>: the three properties the filter reads.\<close>

record message =
  m_bot_id :: "string option"
  m_thread_ts :: "string option"
  m_ts :: "string option"

record response =
  statusCode :: nat
  resp_headers :: "(string \<times> string) list"
  resp_body :: string

text \<open>
  The API Gateway event: \<^verbatim>\<open>event.body\<close> (may be null), \<^verbatim>\<open>event.isBase64Encoded\<close>,
  \<^verbatim>\<open>event.headers\<close> (may be null; a header value may be undefined), the keys in the
  object's enumeration order.
\<close>

record lambda_event =
  req_body :: "string option"
  req_isBase64Encoded :: bool
  req_headers :: "(string \<times> string option) list option"


section \<open>Effects and handler runs\<close>

text \<open>
  What a response handler or the router does to the outside: a call of
  \<^verbatim>\<open>chat.postMessage\<close> (channel, thread\_ts, text), of \<^verbatim>\<open>conversations.replies\<close>
  (channel, ts, limit), of the response generator (with the progress updates it makes
  through its callback), or any other Web API call.
\<close>

datatype effect =
    PostMessage "string option" "string option" string
  | FetchThread "string option" string nat
  | GenerateResponse
  | OtherCall string

datatype handler_kind = AppMention | AssistantThreadStarted | DirectMessage

text \<open>The router's steps, in the order they happen: the trace of one request.\<close>

datatype action =
    DedupCacheCheck string
  | VerifyRequest
  | GetBotId
  | HistoryCheck
  | Invoke handler_kind
  | Effect effect

text \<open>
  One run of a response handler: how long it takes to settle, how it settles (returns or
  throws), and the effects it has performed when the race with the timer is decided.
\<close>

record handler_run =
  duration_ms :: nat
  outcome :: "unit result"
  effects :: "effect list"


section \<open>The environment\<close>

text \<open>
  Everything outside the repository that the code calls: built-ins and library functions
  (\<^verbatim>\<open>Buffer.from(_, 'base64').toString()\<close>, \<^verbatim>\<open>JSON.parse\<close>, \<^verbatim>\<open>parseInt\<close>,
  \<^verbatim>\<open>parseFloat\<close>, \<^verbatim>\<open>String.prototype.toLowerCase\<close> with the whole of its Unicode case
  mapping, the HMAC-SHA256 hex digest), the process environment
  (\<^verbatim>\<open>SLACK_SIGNING_SECRET\<close>), the clock (\<^verbatim>\<open>Date.now()\<close>, in milliseconds), the Slack Web API
  (one outcome per call site) and the two response handlers the router only calls.
  \<open>None\<close> of \<open>parseInt\<close> and \<open>parseFloat\<close> is NaN. Theorems quantify over the
  environment.
\<close>

record env =
  base64_decode :: "string \<Rightarrow> string"
  JSON_parse :: "string \<Rightarrow> json_value result"
  parseInt :: "string \<Rightarrow> int option"
  parseFloat :: "string \<Rightarrow> real option"
  toLowerCase :: "string \<Rightarrow> string"
  hmac_sha256_hex :: "string \<Rightarrow> string \<Rightarrow> string"
  signingSecret :: "string option"
  now_ms :: int
  conversations_replies :: "string option \<Rightarrow> string \<Rightarrow> nat \<Rightarrow> message list option result"
  auth_test_bot_id :: "string option result"
  auth_test_user_id :: "string option result"
  run_handleNewAppMention :: "slack_event \<Rightarrow> string \<Rightarrow> handler_run"
  run_assistantThreadMessage :: "slack_event \<Rightarrow> handler_run"
  dm_generateResponse :: "string option \<Rightarrow> string \<Rightarrow> string \<Rightarrow> string result"
  dm_reply_post :: "unit result"
  dm_duration_ms :: nat
  dm_effects_before_timeout :: nat


section \<open>The signature verifier (isValidSlackRequest, verifyRequest)\<close>

text \<open>
  \<^verbatim>\<open>getHeader\<close>: the first key whose lower-case form is the lower-case name, then its
  value; \<^verbatim>\<open>key ? request.headers[key] : undefined\<close>.
\<close>

definition getHeader :: "env \<Rightarrow> (string \<times> string) list \<Rightarrow> string \<Rightarrow> string option" where
  "getHeader env hs name =
     (case find (\<lambda>kv. toLowerCase env (fst kv) = toLowerCase env name) hs of
        None \<Rightarrow> None
      | Some kv \<Rightarrow> (if fst kv \<noteq> [] then Some (snd kv) else None))"

text \<open>
  \<^verbatim>\<open>Math.abs(Date.now() / 1000 - parseInt(timestamp)) > 60 * 5\<close>. The clock is an integer
  number of milliseconds and \<^verbatim>\<open>parseInt\<close> an integer, so the comparison is taken in
  milliseconds, exactly; with NaN the comparison is false. The true difference is a
  multiple of 0.001, and the rounding of the division is below 0.0005 for every clock
  value below 4.5e15 ms, so the double-precision comparison decides the same.
\<close>

definition replay_window_exceeded :: "int \<Rightarrow> int option \<Rightarrow> bool" where
  "replay_window_exceeded now t =
     (case t of None \<Rightarrow> False | Some n \<Rightarrow> \<bar>now - 1000 * n\<bar> > 1000 * (60 * 5))"

text \<open>
  \<^verbatim>\<open>crypto.timingSafeEqual\<close> throws a RangeError when the two buffers differ in
  length, and compares them otherwise.
\<close>

definition timingSafeEqual :: "string \<Rightarrow> string \<Rightarrow> bool result" where
  "timingSafeEqual a b =
     (if length a \<noteq> length b then Inl (RangeError ''Input buffers must have the same byte length'')
      else Inr (a = b))"

definition computedSignature :: "env \<Rightarrow> string \<Rightarrow> string \<Rightarrow> string \<Rightarrow> string" where
  "computedSignature env secret timestamp rawBody =
     ''v0='' @ hmac_sha256_hex env secret (''v0:'' @ timestamp @ '':'' @ rawBody)"

definition isValidSlackRequest :: "env \<Rightarrow> (string \<times> string) list \<Rightarrow> string \<Rightarrow> bool result" where
  "isValidSlackRequest env hs rawBody =
     (case (getHeader env hs ''X-Slack-Request-Timestamp'',
            getHeader env hs ''X-Slack-Signature'') of
        (Some timestamp, Some slackSignature) \<Rightarrow>
          if timestamp = [] \<or> slackSignature = [] then Inr False
          else if replay_window_exceeded (now_ms env) (parseInt env timestamp) then Inr False
          else
            (case signingSecret env of
               None \<Rightarrow> Inl (TypeError ''The key argument must be of type string'')
             | Some secret \<Rightarrow>
                 try_catch
                   (timingSafeEqual (computedSignature env secret timestamp rawBody) slackSignature)
                   (\<lambda>error. Inr False))
      | _ \<Rightarrow> Inr False)"

text \<open>\<^verbatim>\<open>verifyRequest\<close> returns true for a request to refuse.\<close>

definition verifyRequest :: "env \<Rightarrow> string option \<Rightarrow> (string \<times> string) list \<Rightarrow> string \<Rightarrow> bool" where
  "verifyRequest env requestType hs rawBody =
     (case isValidSlackRequest env hs rawBody of
        Inl error \<Rightarrow> True
      | Inr validRequest \<Rightarrow>
          (if \<not> validRequest \<or> requestType \<noteq> Some ''event_callback'' then True else False))"

definition getBotId :: "env \<Rightarrow> string result" where
  "getBotId env =
     (case auth_test_user_id env of
        Inl error \<Rightarrow> Inl error
      | Inr None \<Rightarrow> Inl (Error ''botUserId is undefined'')
      | Inr (Some botUserId) \<Rightarrow>
          (if botUserId = [] then Inl (Error ''botUserId is undefined'') else Inr botUserId))"


section \<open>The history-based check (checkIfAlreadyResponded)\<close>

text \<open>\<^verbatim>\<open>parseFloat(x) > parseFloat(y)\<close>: false as soon as one side is NaN.\<close>

definition js_gt :: "real option \<Rightarrow> real option \<Rightarrow> bool" where
  "js_gt a b = (case (a, b) of (Some x, Some y) \<Rightarrow> x > y | _ \<Rightarrow> False)"

definition parseFloat_opt :: "env \<Rightarrow> string option \<Rightarrow> real option" where
  "parseFloat_opt env v = (case v of None \<Rightarrow> None | Some s \<Rightarrow> parseFloat env s)"

text \<open>\<^verbatim>\<open>'thread_ts' in event && event.thread_ts ? event.thread_ts : event.ts\<close>\<close>

definition threadTs_of :: "string option \<Rightarrow> string \<Rightarrow> string" where
  "threadTs_of thread_ts ts = (case thread_ts of None \<Rightarrow> ts | Some t \<Rightarrow> (if t \<noteq> [] then t else ts))"

text \<open>The predicate of \<^verbatim>\<open>messages.filter\<close>.\<close>

definition isBotReply :: "env \<Rightarrow> string option \<Rightarrow> string \<Rightarrow> string \<Rightarrow> message \<Rightarrow> bool" where
  "isBotReply env botId threadTs ts m \<longleftrightarrow>
     m_bot_id m = botId \<and>
     m_thread_ts m = Some threadTs \<and>
     js_gt (parseFloat_opt env (m_ts m)) (parseFloat env ts)"

definition checkIfAlreadyResponded :: "env \<Rightarrow> slack_event \<Rightarrow> bool result" where
  "checkIfAlreadyResponded env event =
     (case (ev_channel event, ev_ts event) of
        (Some channel, Some ts) \<Rightarrow>
          try_catch
            (let threadTs = threadTs_of (ev_thread_ts event) ts in
             case conversations_replies env (ev_channel event) threadTs 10 of
               Inl error \<Rightarrow> Inl error
             | Inr None \<Rightarrow> Inr False
             | Inr (Some messages) \<Rightarrow>
                 if length messages \<le> 1 then Inr False
                 else
                   (case auth_test_bot_id env of
                      Inl error \<Rightarrow> Inl error
                    | Inr botId \<Rightarrow>
                        (let botMessages = filter (isBotReply env botId threadTs ts) messages
                         in if length botMessages > 0 then Inr True else Inr False)))
            (\<lambda>error. Inr False)
      | _ \<Rightarrow> Inr False)"


section \<open>The direct-message handler (handleNewAssistantMessage)\<close>

text \<open>
  \<^verbatim>\<open>updateStatus\<close> posts the status text and swallows its own errors; \<^verbatim>\<open>getThread\<close>
  fetches the thread (limit 50) and turns an error into a one-message history; the
  response generator and the reply post may throw, which ends the handler.
\<close>

definition handleNewAssistantMessage :: "env \<Rightarrow> slack_event \<Rightarrow> string \<Rightarrow> handler_run" where
  "handleNewAssistantMessage env event botUserId =
     (if truthy (ev_bot_id event) \<or> ev_bot_id event = Some botUserId \<or> ev_bot_profile event
         \<or> \<not> truthy (ev_thread_ts event)
      then \<lparr>duration_ms = 0, outcome = Inr (), effects = []\<rparr>
      else
        (case ev_thread_ts event of
           None \<Rightarrow> \<lparr>duration_ms = 0, outcome = Inr (), effects = []\<rparr>
         | Some thread_ts \<Rightarrow>
             (let channel = ev_channel event;
                  started = [PostMessage channel (Some thread_ts) ''is thinking...'',
                             FetchThread channel thread_ts 50,
                             GenerateResponse]
              in case dm_generateResponse env channel thread_ts botUserId of
                   Inl error \<Rightarrow>
                     \<lparr>duration_ms = dm_duration_ms env, outcome = Inl error, effects = started\<rparr>
                 | Inr result \<Rightarrow>
                     (case dm_reply_post env of
                        Inl error \<Rightarrow>
                          \<lparr>duration_ms = dm_duration_ms env, outcome = Inl error,
                           effects = started @ [PostMessage channel (Some thread_ts) result]\<rparr>
                      | Inr u \<Rightarrow>
                          \<lparr>duration_ms = dm_duration_ms env, outcome = Inr (),
                           effects = started @ [PostMessage channel (Some thread_ts) result,
                                                PostMessage channel (Some thread_ts) []]\<rparr>))))"


section \<open>The router (src/lambda.ts: handler)\<close>

text \<open>
  \<^verbatim>\<open>isRetryRequest\<close>: the keys are lower-cased into a new object, a later key
  overwriting an earlier one, and the retry number is read from it.
\<close>

definition isRetryRequest :: "env \<Rightarrow> (string \<times> string option) list \<Rightarrow> bool" where
  "isRetryRequest env hs =
     (case find (\<lambda>kv. toLowerCase env (fst kv) = ''x-slack-retry-num'') (rev hs) of
        None \<Rightarrow> False
      | Some kv \<Rightarrow> (case snd kv of None \<Rightarrow> False | Some retryNum \<Rightarrow> retryNum \<noteq> []))"

definition isMessageEvent :: "slack_event \<Rightarrow> bool" where
  "isMessageEvent event \<longleftrightarrow>
     (ev_type event = Some ''app_mention'' \<or> ev_type event = Some ''message'')
     \<and> ev_channel event \<noteq> None \<and> ev_ts event \<noteq> None"

text \<open>
  \<^verbatim>\<open>Promise.race([handler, createTimeout(ms)])\<close>: the handler's outcome when it settles
  before the timer, the timer's rejection otherwise.
\<close>

definition race :: "handler_run \<Rightarrow> nat \<Rightarrow> unit result" where
  "race run timeoutMs =
     (if duration_ms run < timeoutMs then outcome run else Inl (TimeoutError timeoutMs))"

text \<open>The apology of the mention branch, in UTF-8.\<close>

definition APOLOGY_TEXT :: string where
  "APOLOGY_TEXT =
     [CHR 0xE7, CHR 0x94, CHR 0xB3, CHR 0xE3, CHR 0x81, CHR 0x97, CHR 0xE8, CHR 0xA8, CHR 0xB3,
      CHR 0xE3, CHR 0x81, CHR 0x82, CHR 0xE3, CHR 0x82, CHR 0x8A, CHR 0xE3, CHR 0x81, CHR 0xBE,
      CHR 0xE3, CHR 0x81, CHR 0x9B, CHR 0xE3, CHR 0x82, CHR 0x93, CHR 0xE3, CHR 0x80, CHR 0x81,
      CHR 0xE5, CHR 0x87, CHR 0xA6, CHR 0xE7, CHR 0x90, CHR 0x86, CHR 0xE4, CHR 0xB8, CHR 0xAD,
      CHR 0xE3, CHR 0x81, CHR 0xAB, CHR 0xE3, CHR 0x82, CHR 0xA8, CHR 0xE3, CHR 0x83, CHR 0xA9,
      CHR 0xE3, CHR 0x83, CHR 0xBC, CHR 0xE3, CHR 0x81, CHR 0x8C, CHR 0xE7, CHR 0x99, CHR 0xBA,
      CHR 0xE7, CHR 0x94, CHR 0x9F, CHR 0xE3, CHR 0x81, CHR 0x97, CHR 0xE3, CHR 0x81, CHR 0xBE,
      CHR 0xE3, CHR 0x81, CHR 0x97, CHR 0xE3, CHR 0x81, CHR 0x9F, CHR 0xE3, CHR 0x80, CHR 0x82,
      CHR 0xE3, CHR 0x81, CHR 0x97, CHR 0xE3, CHR 0x81, CHR 0xB0, CHR 0xE3, CHR 0x82, CHR 0x89,
      CHR 0xE3, CHR 0x81, CHR 0x8F, CHR 0xE7, CHR 0xB5, CHR 0x8C, CHR 0xE3, CHR 0x81, CHR 0xA3,
      CHR 0xE3, CHR 0x81, CHR 0xA6, CHR 0xE3, CHR 0x81, CHR 0x8B, CHR 0xE3, CHR 0x82, CHR 0x89,
      CHR 0xE3, CHR 0x82, CHR 0x82, CHR 0xE3, CHR 0x81, CHR 0x86, CHR 0xE4, CHR 0xB8, CHR 0x80,
      CHR 0xE5, CHR 0xBA, CHR 0xA6, CHR 0xE3, CHR 0x81, CHR 0x8A, CHR 0xE8, CHR 0xA9, CHR 0xA6,
      CHR 0xE3, CHR 0x81, CHR 0x97, CHR 0xE3, CHR 0x81, CHR 0x8F, CHR 0xE3, CHR 0x81, CHR 0xA0,
      CHR 0xE3, CHR 0x81, CHR 0x95, CHR 0xE3, CHR 0x81, CHR 0x84, CHR 0xE3, CHR 0x80, CHR 0x82]"

text \<open>The body of the final answer, in UTF-8.\<close>

definition COMPLETED_TEXT :: string where
  "COMPLETED_TEXT =
     [CHR 0xE5, CHR 0x87, CHR 0xA6, CHR 0xE7, CHR 0x90, CHR 0x86, CHR 0xE3, CHR 0x81, CHR 0x8C,
      CHR 0xE5, CHR 0xAE, CHR 0x8C, CHR 0xE4, CHR 0xBA, CHR 0x86, CHR 0xE3, CHR 0x81, CHR 0x97,
      CHR 0xE3, CHR 0x81, CHR 0xBE, CHR 0xE3, CHR 0x81, CHR 0x97, CHR 0xE3, CHR 0x81, CHR 0x9F]"

text \<open>\<^verbatim>\<open>slackEvent.thread_ts || slackEvent.ts\<close>\<close>

definition thread_or_ts :: "slack_event \<Rightarrow> string option" where
  "thread_or_ts event = (if truthy (ev_thread_ts event) then ev_thread_ts event else ev_ts event)"

text \<open>The condition of the third branch of the dispatch.\<close>

definition isDirectMessage :: "slack_event \<Rightarrow> string \<Rightarrow> bool" where
  "isDirectMessage slackEvent botUserId \<longleftrightarrow>
     ev_type slackEvent = Some ''message''
     \<and> \<not> truthy (ev_subtype slackEvent)
     \<and> ev_channel_type slackEvent = Some ''im''
     \<and> \<not> truthy (ev_bot_id slackEvent)
     \<and> \<not> ev_bot_profile slackEvent
     \<and> \<not> (ev_bot_id slackEvent = Some botUserId)"

text \<open>
  The effects of a handler that the trace shows: all of them when the handler settles
  before the timer, and those performed before the deadline otherwise.
\<close>

definition dm_run_effects :: "env \<Rightarrow> handler_run \<Rightarrow> nat \<Rightarrow> effect list" where
  "dm_run_effects env run timeoutMs =
     (if duration_ms run < timeoutMs then effects run
      else take (dm_effects_before_timeout env) (effects run))"

definition dispatch :: "env \<Rightarrow> slack_event \<Rightarrow> string \<Rightarrow> nat \<Rightarrow> action list" where
  "dispatch env slackEvent botUserId timeoutMs =
     (if ev_type slackEvent = Some ''app_mention'' then
        (let run = run_handleNewAppMention env slackEvent botUserId
         in Invoke AppMention # map Effect (effects run) @
            (case race run timeoutMs of
               Inr u \<Rightarrow> []
             | Inl error \<Rightarrow>
                 (if isMessageEvent slackEvent
                  then [Effect (PostMessage (ev_channel slackEvent) (thread_or_ts slackEvent)
                                  APOLOGY_TEXT)]
                  else [])))
      else if ev_type slackEvent = Some ''assistant_thread_started'' then
        Invoke AssistantThreadStarted
          # map Effect (effects (run_assistantThreadMessage env slackEvent))
      else if isDirectMessage slackEvent botUserId then
        Invoke DirectMessage
          # map Effect (dm_run_effects env
                          (handleNewAssistantMessage env slackEvent botUserId) timeoutMs)
      else [])"

text \<open>The history check as the router runs it, under its own \<^verbatim>\<open>try/catch\<close>.\<close>

definition historyStep :: "env \<Rightarrow> slack_event \<Rightarrow> bool \<times> action list" where
  "historyStep env slackEvent =
     (if isMessageEvent slackEvent then
        (case checkIfAlreadyResponded env slackEvent of
           Inl error \<Rightarrow> (False, [HistoryCheck])
         | Inr isAlreadyProcessed \<Rightarrow> (isAlreadyProcessed, [HistoryCheck]))
      else (False, []))"

definition lambdaRequest_headers :: "lambda_event \<Rightarrow> (string \<times> string) list" where
  "lambdaRequest_headers event =
     (case req_headers event of
        None \<Rightarrow> []
      | Some hs \<Rightarrow> map (\<lambda>kv. (fst kv, case snd kv of None \<Rightarrow> [] | Some v \<Rightarrow> v)) hs)"

definition text_response :: "nat \<Rightarrow> string \<Rightarrow> response" where
  "text_response code b = \<lparr>statusCode = code, resp_headers = [], resp_body = b\<rparr>"

text \<open>The inner \<^verbatim>\<open>try\<close> block of the handler, with its \<^verbatim>\<open>catch\<close>.\<close>

definition processEvent ::
  "env \<Rightarrow> lambda_event \<Rightarrow> string option \<Rightarrow> slack_event \<Rightarrow> string \<Rightarrow> response \<times> action list" where
  "processEvent env event requestType slackEvent rawBody =
     (if verifyRequest env requestType (lambdaRequest_headers event) rawBody then
        (text_response 200 ''Verification failed, but returning 200 to avoid retries'',
         [VerifyRequest])
      else
        (case getBotId env of
           Inl error \<Rightarrow>
             (text_response 200 ''Error occurred, but returning 200 to avoid retries'',
              [VerifyRequest, GetBotId])
         | Inr botUserId \<Rightarrow>
             (let isRetry = (case req_headers event of None \<Rightarrow> False
                             | Some hs \<Rightarrow> isRetryRequest env hs);
                  checked = historyStep env slackEvent
              in if fst checked then
                   (text_response 200 ''Event already processed (verified via thread history)'',
                    [VerifyRequest, GetBotId] @ snd checked)
                 else
                   (let timeoutMs = (if isRetry then 120000 else 160000)
                    in (text_response 200 COMPLETED_TEXT,
                        [VerifyRequest, GetBotId] @ snd checked
                          @ dispatch env slackEvent botUserId timeoutMs)))))"

text \<open>\<^verbatim>\<open>event.body || ''\<close>, decoded when \<^verbatim>\<open>event.isBase64Encoded\<close>.\<close>

definition rawBody_of :: "env \<Rightarrow> lambda_event \<Rightarrow> string" where
  "rawBody_of env event =
     (let rawBody = (case req_body event of None \<Rightarrow> [] | Some b \<Rightarrow> b)
      in if req_isBase64Encoded event then base64_decode env rawBody else rawBody)"

text \<open>\<^verbatim>\<open>JSON.stringify({ challenge: payload.challenge })\<close>: an undefined property is left out.\<close>

definition challenge_body :: "string option \<Rightarrow> string" where
  "challenge_body challenge =
     (case challenge of
        None \<Rightarrow> ''{}''
      | Some ch \<Rightarrow> [CHR 0x7B, CHR 0x22] @ ''challenge'' @ [CHR 0x22, CHR 0x3A]
                     @ JSON_stringify_string ch @ [CHR 0x7D])"

definition error_response :: "js_error \<Rightarrow> response" where
  "error_response error = text_response 500 (''Error processing request: '' @ error_message error)"

text \<open>The first dedup layer as the router runs it.\<close>

definition dedupStep :: "payload \<Rightarrow> cache \<Rightarrow> bool \<times> action list \<times> cache" where
  "dedupStep payload c =
     (if p_type payload = Some ''event_callback'' \<and> p_event payload \<noteq> None
         \<and> truthy (p_event_id payload)
      then
        (case p_event_id payload of
           None \<Rightarrow> (False, [], c)
         | Some event_id \<Rightarrow>
             (let r = isEventProcessed event_id c
              in (fst r, [DedupCacheCheck event_id], snd r)))
      else (False, [], c))"

text \<open>
  The handler: the answer, the trace of the router's steps, and the cache afterwards.
  Reading \<^verbatim>\<open>payload.type\<close> of \<^verbatim>\<open>null\<close> throws a TypeError inside the outer \<^verbatim>\<open>try\<close>.
\<close>

definition handler :: "env \<Rightarrow> cache \<Rightarrow> lambda_event \<Rightarrow> response \<times> action list \<times> cache" where
  "handler env c event =
     (let rawBody = rawBody_of env event
      in case JSON_parse env rawBody of
           Inl error \<Rightarrow> (error_response error, [], c)
         | Inr JNull \<Rightarrow>
             (error_response (TypeError ''Cannot read properties of null (reading 'type')''), [], c)
         | Inr (JPayload payload) \<Rightarrow>
             if p_type payload = Some ''url_verification'' then
               (\<lparr>statusCode = 200,
                 resp_headers = [(''Content-Type'', ''application/json'')],
                 resp_body = challenge_body (p_challenge payload)\<rparr>, [], c)
             else
               (let requestType = p_type payload;
                    d = dedupStep payload c
                in if fst d then
                     (text_response 200 ''Event already processed'', fst (snd d), snd (snd d))
                   else
                     (case p_event payload of
                        None \<Rightarrow> (text_response 200 ''Success!'', fst (snd d), snd (snd d))
                      | Some slackEvent \<Rightarrow>
                          if requestType = Some ''event_callback'' then
                            (let r = processEvent env event requestType slackEvent rawBody
                             in (fst r, fst (snd d) @ snd r, snd (snd d)))
                          else (text_response 200 ''Success!'', fst (snd d), snd (snd d)))))"


text \<open>The trace of one request.\<close>

definition trace_of :: "env \<Rightarrow> cache \<Rightarrow> lambda_event \<Rightarrow> action list" where
  "trace_of env c event = fst (snd (handler env c event))"

section \<open>The older route (src/unnamed/part\_000: POST)\<close>

text \<open>
  The route of the serverless deployment. \<^verbatim>\<open>JSON.parse\<close> and the read of
  \<^verbatim>\<open>payload.type\<close> stand outside its \<^verbatim>\<open>try\<close>, so their errors leave the function; the
  value of \<^verbatim>\<open>verifyRequest\<close> is not used; the handlers are handed to \<^verbatim>\<open>waitUntil\<close> and
  run after the answer, so the trace ends with their invocation. Reading \<^verbatim>\<open>event.type\<close>
  of an absent event throws inside the \<^verbatim>\<open>try\<close>.
\<close>

definition POST_history :: "env \<Rightarrow> slack_event \<Rightarrow> bool \<times> action list" where
  "POST_history env event =
     (if ev_channel event \<noteq> None \<and> ev_ts event \<noteq> None then
        (case checkIfAlreadyResponded env event of
           Inl error \<Rightarrow> (False, [HistoryCheck])
         | Inr isAlreadyProcessed \<Rightarrow> (isAlreadyProcessed, [HistoryCheck]))
      else (False, []))"

definition POST_route :: "env \<Rightarrow> slack_event \<Rightarrow> string \<Rightarrow> response \<times> action list" where
  "POST_route env event botUserId =
     (if ev_type event = Some ''app_mention'' then
        (let h = POST_history env event
         in if fst h then (text_response 200 ''Event already responded'', snd h)
            else (text_response 200 ''Success!'', snd h @ [Invoke AppMention]))
      else if ev_type event = Some ''assistant_thread_started'' then
        (text_response 200 ''Success!'', [Invoke AssistantThreadStarted])
      else if isDirectMessage event botUserId then
        (let h = POST_history env event
         in if fst h then (text_response 200 ''Message already responded'', snd h)
            else (text_response 200 ''Success!'', snd h @ [Invoke DirectMessage]))
      else (text_response 200 ''Success!'', []))"

definition POST ::
  "env \<Rightarrow> cache \<Rightarrow> string \<Rightarrow> (string \<times> string) list \<Rightarrow> (response \<times> action list \<times> cache) result" where
  "POST env c rawBody hs =
     (case JSON_parse env rawBody of
        Inl error \<Rightarrow> Inl error
      | Inr JNull \<Rightarrow> Inl (TypeError ''Cannot read properties of null (reading 'type')'')
      | Inr (JPayload payload) \<Rightarrow>
          if p_type payload = Some ''url_verification'' then
            Inr (text_response 200 (case p_challenge payload of None \<Rightarrow> [] | Some ch \<Rightarrow> ch), [], c)
          else
            (let d = dedupStep payload c
             in if fst d then
                  Inr (text_response 200 ''Event already processed'', fst (snd d), snd (snd d))
                else
                  (let ignored = verifyRequest env (p_type payload) hs rawBody
                   in case getBotId env of
                        Inl error \<Rightarrow>
                          Inr (text_response 500 ''Error generating response'',
                               fst (snd d) @ [VerifyRequest, GetBotId], snd (snd d))
                      | Inr botUserId \<Rightarrow>
                          (case p_event payload of
                             None \<Rightarrow>
                               Inr (text_response 500 ''Error generating response'',
                                    fst (snd d) @ [VerifyRequest, GetBotId], snd (snd d))
                           | Some event \<Rightarrow>
                               (let r = POST_route env event botUserId
                                in Inr (fst r, fst (snd d) @ [VerifyRequest, GetBotId] @ snd r,
                                        snd (snd d)))))))"

text \<open>The trace of one request to the route; empty when the route throws.\<close>

definition POST_trace :: "env \<Rightarrow> cache \<Rightarrow> string \<Rightarrow> (string \<times> string) list \<Rightarrow> action list" where
  "POST_trace env c rawBody hs =
     (case POST env c rawBody hs of Inl error \<Rightarrow> [] | Inr r \<Rightarrow> fst (snd r))"


section \<open>The order of the router's steps\<close>

fun stage :: "action \<Rightarrow> nat" where
  "stage (DedupCacheCheck event_id) = 0"
| "stage VerifyRequest = 1"
| "stage GetBotId = 2"
| "stage HistoryCheck = 3"
| "stage (Invoke k) = 4"
| "stage (Effect e) = 5"

text \<open>
  \<open>performed_before A B tr\<close>: reading the trace from its start, a step in \<open>A\<close> is met
  before any step in \<open>B\<close>, or no step in \<open>B\<close> is met at all. So a \<open>B\<close> step never
  happens unless an \<open>A\<close> step has happened first.
\<close>

fun performed_before :: "(action \<Rightarrow> bool) \<Rightarrow> (action \<Rightarrow> bool) \<Rightarrow> action list \<Rightarrow> bool" where
  "performed_before A B [] = True"
| "performed_before A B (x # xs) =
     (if A x then True else if B x then False else performed_before A B xs)"

definition is_cache_check :: "action \<Rightarrow> bool" where
  "is_cache_check a \<longleftrightarrow> stage a = 0"

definition is_verification :: "action \<Rightarrow> bool" where
  "is_verification a \<longleftrightarrow> stage a = 1"

definition is_history_check :: "action \<Rightarrow> bool" where
  "is_history_check a \<longleftrightarrow> stage a = 3"

definition is_dispatch :: "action \<Rightarrow> bool" where
  "is_dispatch a \<longleftrightarrow> stage a = 4"

text \<open>The steps of the pipeline in a trace, without the handlers' effects.\<close>

definition pipeline_stages :: "action list \<Rightarrow> nat list" where
  "pipeline_stages tr = map stage (filter (\<lambda>a. stage a < 5) tr)"


section \<open>Concrete environments and requests\<close>

text \<open>
  Stand-ins for the built-ins, for concrete runs: unsigned decimal numerals for
  \<^verbatim>\<open>parseInt\<close> and \<^verbatim>\<open>parseFloat\<close>, the lower-casing of strings of ASCII characters,
  and a digest that is a function of key and message.
\<close>

definition ascii_toLowerCase :: "string \<Rightarrow> string" where
  "ascii_toLowerCase s =
     map (\<lambda>c. case map_of (zip ''ABCDEFGHIJKLMNOPQRSTUVWXYZ'' ''abcdefghijklmnopqrstuvwxyz'') c of
                None \<Rightarrow> c | Some l \<Rightarrow> l) s"

definition digit_of :: "char \<Rightarrow> nat option" where
  "digit_of c = map_of (zip ''0123456789'' [0, 1, 2, 3, 4, 5, 6, 7, 8, 9]) c"

definition digits_value :: "string \<Rightarrow> nat" where
  "digits_value ds = foldl (\<lambda>acc c. 10 * acc + (case digit_of c of None \<Rightarrow> 0 | Some d \<Rightarrow> d)) 0 ds"

definition parseInt_decimal :: "string \<Rightarrow> int option" where
  "parseInt_decimal s =
     (let ds = takeWhile (\<lambda>c. digit_of c \<noteq> None) s
      in if ds = [] then None else Some (int (digits_value ds)))"

definition parseFloat_decimal :: "string \<Rightarrow> real option" where
  "parseFloat_decimal s =
     (let ds = takeWhile (\<lambda>c. digit_of c \<noteq> None) s;
          rest = dropWhile (\<lambda>c. digit_of c \<noteq> None) s
      in if ds = [] then None
         else (case rest of
                 [] \<Rightarrow> Some (real (digits_value ds))
               | c # r \<Rightarrow>
                   (if c = CHR ''.'' then
                      (let fs = takeWhile (\<lambda>c. digit_of c \<noteq> None) r
                       in Some (real (digits_value ds) + real (digits_value fs) / 10 ^ length fs))
                    else Some (real (digits_value ds)))))"

definition stub_digest :: "string \<Rightarrow> string \<Rightarrow> string" where
  "stub_digest key msg = ''digest('' @ key @ '','' @ msg @ '')''"

definition quick_run :: handler_run where
  "quick_run = \<lparr>duration_ms = 1000, outcome = Inr (),
                effects = [PostMessage (Some ''C1'') (Some ''100'') ''answer'']\<rparr>"

definition slow_run :: handler_run where
  "slow_run = \<lparr>duration_ms = 200000, outcome = Inr (), effects = []\<rparr>"

definition demo_env :: env where
  "demo_env =
     \<lparr>base64_decode = (\<lambda>s. s),
      JSON_parse = (\<lambda>s. if s = ''null'' then Inr JNull else Inl (SyntaxError ''Unexpected token'')),
      parseInt = parseInt_decimal,
      parseFloat = parseFloat_decimal,
      toLowerCase = ascii_toLowerCase,
      hmac_sha256_hex = stub_digest,
      signingSecret = Some ''secret'',
      now_ms = 1700000005000,
      conversations_replies = (\<lambda>channel ts limit. Inr (Some [])),
      auth_test_bot_id = Inr (Some ''B1''),
      auth_test_user_id = Inr (Some ''U1''),
      run_handleNewAppMention = (\<lambda>event botUserId. quick_run),
      run_assistantThreadMessage = (\<lambda>event. quick_run),
      dm_generateResponse = (\<lambda>channel thread_ts botUserId. Inr ''answer''),
      dm_reply_post = Inr (),
      dm_duration_ms = 1000,
      dm_effects_before_timeout = 1\<rparr>"

text \<open>The environment in which every body parses to the given payload.\<close>

definition env_parsing :: "payload \<Rightarrow> env" where
  "env_parsing p = demo_env\<lparr>JSON_parse := (\<lambda>s. Inr (JPayload p))\<rparr>"

definition blank_event :: slack_event where
  "blank_event =
     \<lparr>ev_type = None, ev_channel = None, ev_ts = None, ev_thread_ts = None, ev_subtype = None,
      ev_channel_type = None, ev_bot_id = None, ev_bot_profile = False, ev_text = None\<rparr>"

definition mention_event :: slack_event where
  "mention_event =
     blank_event\<lparr>ev_type := Some ''app_mention'', ev_channel := Some ''C1'',
                 ev_ts := Some ''100'', ev_text := Some ''hello''\<rparr>"

text \<open>A direct message at the top level of the conversation: it has no thread\_ts.\<close>

definition dm_event :: slack_event where
  "dm_event =
     blank_event\<lparr>ev_type := Some ''message'', ev_channel := Some ''D1'',
                 ev_ts := Some ''100'', ev_channel_type := Some ''im'',
                 ev_text := Some ''hello''\<rparr>"

text \<open>A direct message inside a thread.\<close>

definition dm_thread_event :: slack_event where
  "dm_thread_event = dm_event\<lparr>ev_ts := Some ''100'', ev_thread_ts := Some ''90''\<rparr>"

definition callback :: "slack_event \<Rightarrow> payload" where
  "callback e =
     \<lparr>p_type = Some ''event_callback'', p_challenge = None, p_event_id = Some ''Ev1'',
      p_event = Some e\<rparr>"

definition challenge_payload :: "string \<Rightarrow> payload" where
  "challenge_payload ch =
     \<lparr>p_type = Some ''url_verification'', p_challenge = Some ch, p_event_id = None,
      p_event = None\<rparr>"

text \<open>A request signed for \<open>demo_env\<close>, five seconds old there.\<close>

definition signed_request :: "string \<Rightarrow> lambda_event" where
  "signed_request b =
     \<lparr>req_body = Some b, req_isBase64Encoded = False,
      req_headers = Some
        [(''X-Slack-Request-Timestamp'', Some ''1700000000''),
         (''X-Slack-Signature'',
          Some (''v0='' @ stub_digest ''secret'' (''v0:'' @ ''1700000000'' @ '':'' @ b)))]\<rparr>"

definition unsigned_request :: "string \<Rightarrow> lambda_event" where
  "unsigned_request b = \<lparr>req_body = Some b, req_isBase64Encoded = False, req_headers = None\<rparr>"


text \<open>Threads as \<^verbatim>\<open>conversations.replies\<close> returns them, for the event at ts 100.\<close>

definition root_message :: message where
  "root_message = \<lparr>m_bot_id = None, m_thread_ts = Some ''100'', m_ts = Some ''100''\<rparr>"

definition bot_reply :: "string \<Rightarrow> message" where
  "bot_reply ts = \<lparr>m_bot_id = Some ''B1'', m_thread_ts = Some ''100'', m_ts = Some ts\<rparr>"

definition env_with_thread :: "message list \<Rightarrow> env" where
  "env_with_thread ms = demo_env\<lparr>conversations_replies := (\<lambda>channel ts limit. Inr (Some ms))\<rparr>"

definition failing_fetch_env :: env where
  "failing_fetch_env =
     demo_env\<lparr>conversations_replies := (\<lambda>channel ts limit. Inl (ApiError ''ratelimited''))\<rparr>"

definition failing_auth_env :: env where
  "failing_auth_env =
     (env_with_thread [root_message, bot_reply ''200''])
       \<lparr>auth_test_bot_id := Inl (ApiError ''invalid_auth'')\<rparr>"

text \<open>Header lists for the verifier, and the clock set to a given age of the timestamp.\<close>

definition signed_headers :: "string \<Rightarrow> (string \<times> string) list" where
  "signed_headers b =
     [(''X-Slack-Request-Timestamp'', ''1700000000''),
      (''X-Slack-Signature'',
       ''v0='' @ stub_digest ''secret'' (''v0:'' @ ''1700000000'' @ '':'' @ b))]"

definition env_aged :: "int \<Rightarrow> env" where
  "env_aged seconds = demo_env\<lparr>now_ms := 1000 * (1700000000 + seconds)\<rparr>"

text \<open>
  Environments in which a handler loses the race against the 160 s timer, or throws.
\<close>

definition slow_mention_env :: env where
  "slow_mention_env =
     (env_parsing (callback mention_event))\<lparr>run_handleNewAppMention := (\<lambda>event botUserId. slow_run)\<rparr>"

definition slow_dm_env :: env where
  "slow_dm_env = (env_parsing (callback dm_thread_event))\<lparr>dm_duration_ms := 200000\<rparr>"

definition throwing_dm_env :: env where
  "throwing_dm_env =
     (env_parsing (callback dm_thread_event))
       \<lparr>dm_generateResponse := (\<lambda>channel thread_ts botUserId. Inl (ApiError ''overloaded''))\<rparr>"


text \<open>The environment of the signed mention in which the identity lookup fails.\<close>

definition failing_identity_env :: env where
  "failing_identity_env =
     (env_parsing (callback mention_event))\<lparr>auth_test_user_id := Inl (ApiError ''invalid_auth'')\<rparr>"

section \<open>Properties of the dedup cache\<close>

lemma hit_unchanged: "x \<in> processedEvents c \<Longrightarrow> isEventProcessed x c = (True, c)"
  by (simp add: isEventProcessed_def)

lemma fst_isEventProcessed: "fst (isEventProcessed x c) \<longleftrightarrow> x \<in> processedEvents c"
  by (simp add: isEventProcessed_def Let_def split: list.splits)

lemma miss_queue:
  assumes "x \<notin> processedEvents c" "length (processedEventsQueue c) \<le> MAX_CACHE_SIZE"
  shows "processedEventsQueue (snd (isEventProcessed x c)) =
           (if length (processedEventsQueue c) = MAX_CACHE_SIZE
            then tl (processedEventsQueue c) @ [x] else processedEventsQueue c @ [x])"
  using assms
  by (cases "processedEventsQueue c") (auto simp: isEventProcessed_def Let_def MAX_CACHE_SIZE_def)

lemma miss_set:
  assumes "x \<notin> processedEvents c" "length (processedEventsQueue c) \<le> MAX_CACHE_SIZE"
  shows "processedEvents (snd (isEventProcessed x c)) =
           (if length (processedEventsQueue c) = MAX_CACHE_SIZE \<and> hd (processedEventsQueue c) \<noteq> []
            then insert x (processedEvents c) - {hd (processedEventsQueue c)}
            else insert x (processedEvents c))"
  using assms
  by (cases "processedEventsQueue c") (auto simp: isEventProcessed_def Let_def MAX_CACHE_SIZE_def)

lemma cache_inv_empty: "cache_inv emptyCache"
  by (simp add: cache_inv_def emptyCache_def)

lemma cache_inv_step: "cache_inv c \<Longrightarrow> cache_inv (snd (isEventProcessed x c))"
proof (cases "x \<in> processedEvents c")
  case True
  assume "cache_inv c"
  with True show ?thesis by (simp add: hit_unchanged)
next
  case False
  assume inv: "cache_inv c"
  then have len: "length (processedEventsQueue c) \<le> MAX_CACHE_SIZE"
    and dist: "distinct (processedEventsQueue c)"
    and sub: "set (processedEventsQueue c) \<subseteq> processedEvents c"
    by (simp_all add: cache_inv_def)
  from False sub have xq: "x \<notin> set (processedEventsQueue c)" by auto
  show ?thesis
  proof (cases "processedEventsQueue c")
    case Nil
    with False len show ?thesis
      by (simp add: cache_inv_def miss_queue miss_set MAX_CACHE_SIZE_def)
  next
    case (Cons a q)
    with False len dist sub xq show ?thesis
      by (auto simp: cache_inv_def miss_queue miss_set)
  qed
qed

lemma cache_inv_feed: "cache_inv c \<Longrightarrow> cache_inv (feed xs c)"
  by (induction xs arbitrary: c) (simp_all add: cache_inv_step)

text \<open>
  Fed with pairwise distinct, non-empty identifiers that it does not hold yet, the cache
  keeps exactly the last \<open>MAX_CACHE_SIZE\<close> of them, in order of arrival.
\<close>

lemma feed_fifo:
  assumes "processedEvents c = set (processedEventsQueue c)"
    and "length (processedEventsQueue c) \<le> MAX_CACHE_SIZE"
    and "distinct (processedEventsQueue c @ xs)"
    and "[] \<notin> set (processedEventsQueue c @ xs)"
  shows "processedEventsQueue (feed xs c) =
           drop (length (processedEventsQueue c @ xs) - MAX_CACHE_SIZE) (processedEventsQueue c @ xs)
         \<and> processedEvents (feed xs c) = set (processedEventsQueue (feed xs c))"
  using assms
proof (induction xs arbitrary: c)
  case Nil
  then show ?case by simp
next
  case (Cons x xs)
  let ?q = "processedEventsQueue c"
  let ?c' = "snd (isEventProcessed x c)"
  from Cons.prems have xS: "x \<notin> processedEvents c" by simp
  from Cons.prems have len: "length ?q \<le> MAX_CACHE_SIZE" by simp
  have q': "processedEventsQueue ?c' =
              (if length ?q = MAX_CACHE_SIZE then tl ?q @ [x] else ?q @ [x])"
    using miss_queue [OF xS len] .
  have s': "processedEvents ?c' = set (processedEventsQueue ?c')"
  proof (cases ?q)
    case Nil
    with Cons.prems xS len show ?thesis
      by (simp add: miss_set miss_queue MAX_CACHE_SIZE_def)
  next
    case (Cons a q)
    with Cons.prems xS len show ?thesis
      by (auto simp: miss_set miss_queue)
  qed
  have len': "length (processedEventsQueue ?c') \<le> MAX_CACHE_SIZE"
    using len by (cases ?q) (auto simp: q' MAX_CACHE_SIZE_def)
  have d': "distinct (processedEventsQueue ?c' @ xs)"
    using Cons.prems(3) by (cases ?q) (auto simp: q')
  have n': "[] \<notin> set (processedEventsQueue ?c' @ xs)"
    using Cons.prems(4) by (cases ?q) (auto simp: q')
  have eq: "drop (length (processedEventsQueue ?c' @ xs) - MAX_CACHE_SIZE) (processedEventsQueue ?c' @ xs)
          = drop (length (?q @ x # xs) - MAX_CACHE_SIZE) (?q @ x # xs)"
  proof (cases "length ?q = MAX_CACHE_SIZE")
    case True
    then obtain a q where aq: "?q = a # q" by (cases ?q) (auto simp: MAX_CACHE_SIZE_def)
    from True aq have l1: "length ((q @ [x]) @ xs) - MAX_CACHE_SIZE = length xs" by simp
    from True aq have l2: "length ((a # q) @ x # xs) - MAX_CACHE_SIZE = Suc (length xs)" by simp
    have "drop (length ((q @ [x]) @ xs) - MAX_CACHE_SIZE) ((q @ [x]) @ xs)
        = drop (length ((a # q) @ x # xs) - MAX_CACHE_SIZE) ((a # q) @ x # xs)"
      unfolding l1 l2 by simp
    moreover from True aq have "processedEventsQueue ?c' = q @ [x]" by (simp add: q')
    ultimately show ?thesis by (simp only: aq)
  next
    case False
    then show ?thesis by (simp add: q')
  qed
  from Cons.IH [OF s' len' d' n'] eq show ?case by simp
qed

lemma feed_fifo_empty:
  assumes "distinct xs" "[] \<notin> set xs"
  shows "processedEventsQueue (feed xs emptyCache) = drop (length xs - MAX_CACHE_SIZE) xs"
    and "processedEvents (feed xs emptyCache) = set (drop (length xs - MAX_CACHE_SIZE) xs)"
  using feed_fifo [of emptyCache xs] assms by (simp_all add: emptyCache_def)

lemma distinct_ids: "distinct (ids n)"
  by (auto simp: ids_def distinct_map inj_on_def dest: arg_cong [where f = length])

lemma length_ids: "length (ids n) = n"
  by (simp add: ids_def)

lemma ids_nonempty: "[] \<notin> set (ids n)"
  by (auto simp: ids_def)

lemma hd_ids: "hd (ids (Suc n)) = ''e''"
  by (simp add: ids_def upt_conv_Cons del: upt_Suc)

lemma feed_subset: "processedEvents (feed xs c) \<subseteq> processedEvents c \<union> set xs"
proof (induction xs arbitrary: c)
  case Nil
  then show ?case by simp
next
  case (Cons x xs)
  have "processedEvents (snd (isEventProcessed x c)) \<subseteq> insert x (processedEvents c)"
    by (auto simp: isEventProcessed_def Let_def split: list.splits if_splits)
  with Cons.IH [of "snd (isEventProcessed x c)"] show ?case by auto
qed

lemma misses_le_length: "misses ys c \<le> length ys"
proof (induction ys arbitrary: c)
  case Nil
  then show ?case by simp
next
  case (Cons y ys)
  from Cons.IH [of "snd (isEventProcessed y c)"] show ?case by simp
qed

text \<open>
  An identifier in the queue with \<open>length post\<close> newer ones behind it stays there as long
  as fewer than \<open>MAX_CACHE_SIZE\<close> identifiers have been recorded after it.
\<close>

lemma retained_in_queue:
  assumes "cache_inv c"
    and "processedEventsQueue c = pre @ x # post"
    and "length post + misses ys c < MAX_CACHE_SIZE"
  shows "x \<in> set (processedEventsQueue (feed ys c))"
  using assms
proof (induction ys arbitrary: c pre post)
  case Nil
  then show ?case by simp
next
  case (Cons y ys)
  let ?c' = "snd (isEventProcessed y c)"
  show ?case
  proof (cases "y \<in> processedEvents c")
    case True
    then have "isEventProcessed y c = (True, c)" by (rule hit_unchanged)
    with Cons.prems Cons.IH [of c pre post] show ?thesis by simp
  next
    case False
    from Cons.prems(1) have len: "length (processedEventsQueue c) \<le> MAX_CACHE_SIZE"
      by (simp add: cache_inv_def)
    have inv': "cache_inv ?c'" using Cons.prems(1) by (rule cache_inv_step)
    from False have m: "misses (y # ys) c = Suc (misses ys ?c')"
      by (simp add: fst_isEventProcessed)
    with Cons.prems(3) have bound: "length (post @ [y]) + misses ys ?c' < MAX_CACHE_SIZE"
      by simp
    show ?thesis
    proof (cases "length (processedEventsQueue c) = MAX_CACHE_SIZE")
      case full: True
      show ?thesis
      proof (cases pre)
        case Nil
        with full Cons.prems(2) have "Suc (length post) = MAX_CACHE_SIZE" by simp
        with bound show ?thesis by simp
      next
        case (Cons a pre2)
        with full Cons.prems(2) False len
        have "processedEventsQueue ?c' = pre2 @ x # (post @ [y])"
          by (simp add: miss_queue)
        from Cons.IH [OF inv' this bound] show ?thesis by simp
      qed
    next
      case notfull: False
      with Cons.prems(2) False len
      have "processedEventsQueue ?c' = pre @ x # (post @ [y])"
        by (simp add: miss_queue)
      from Cons.IH [OF inv' this bound] show ?thesis by simp
    qed
  qed
qed

lemma recorded_last:
  assumes "cache_inv c" "x \<notin> processedEvents c"
  shows "\<exists>pre. processedEventsQueue (snd (isEventProcessed x c)) = pre @ x # []"
  using assms by (auto simp: miss_queue cache_inv_def)

text \<open>
  The identifiers that reach the cache are never empty: the router calls
  \<open>isEventProcessed\<close> only behind the truthiness test of \<^verbatim>\<open>payload.event_id\<close>, so the
  empty identifier is neither checked nor ever recorded by a request.
\<close>

lemma dedupStep_never_empty:
  "DedupCacheCheck event_id \<in> set (fst (snd (dedupStep payload c))) \<Longrightarrow> event_id \<noteq> []"
  by (auto simp: dedupStep_def Let_def truthy_def split: option.splits if_splits)

lemma isEventProcessed_keeps_empty_out:
  "x \<noteq> [] \<Longrightarrow> [] \<notin> processedEvents c \<Longrightarrow> [] \<notin> processedEvents (snd (isEventProcessed x c))"
  by (auto simp: isEventProcessed_def Let_def split: list.splits if_splits)

lemma dedupStep_keeps_empty_out:
  "[] \<notin> processedEvents c \<Longrightarrow> [] \<notin> processedEvents (snd (snd (dedupStep payload c)))"
  by (auto simp: dedupStep_def Let_def truthy_def isEventProcessed_keeps_empty_out
           split: option.splits)

lemma handler_keeps_empty_out:
  "[] \<notin> processedEvents c \<Longrightarrow> [] \<notin> processedEvents (snd (snd (handler env c event)))"
  by (auto simp: handler_def Let_def dedupStep_keeps_empty_out
           split: sum.splits json_value.splits option.splits)

lemma POST_keeps_empty_out:
  "[] \<notin> processedEvents c \<Longrightarrow> POST env c rawBody hs = Inr r
   \<Longrightarrow> [] \<notin> processedEvents (snd (snd r))"
  by (auto simp: POST_def Let_def dedupStep_keeps_empty_out
           split: sum.splits json_value.splits option.splits if_splits)

text \<open>
  C1. For every sequence \<open>xs\<close> of more than 100 pairwise distinct identifiers passed to
  \<open>isEventProcessed\<close>, starting from the empty cache (identifiers as the cache receives
  them: non-empty strings): after the first 101 insertions a query on the earliest
  identifier returns false and a query on each of the other 100 returns true and leaves
  the cache as it is; after the whole sequence the queue holds exactly the last 100
  identifiers in order of arrival, the set holds the same identifiers (one eviction, of
  the oldest, for each insertion past capacity), every identifier before the last 100 is
  reported as new, and every one of the last 100 as seen.
\<close>

theorem C1_fifo_eviction:
  assumes "distinct xs" and "[] \<notin> set xs" and "length xs > MAX_CACHE_SIZE"
  shows "fst (isEventProcessed (hd xs) (feed (take (Suc MAX_CACHE_SIZE) xs) emptyCache)) = False
       \<and> (\<forall>x \<in> set (tl (take (Suc MAX_CACHE_SIZE) xs)).
            isEventProcessed x (feed (take (Suc MAX_CACHE_SIZE) xs) emptyCache)
              = (True, feed (take (Suc MAX_CACHE_SIZE) xs) emptyCache))
       \<and> processedEventsQueue (feed xs emptyCache) = drop (length xs - MAX_CACHE_SIZE) xs
       \<and> processedEvents (feed xs emptyCache) = set (drop (length xs - MAX_CACHE_SIZE) xs)
       \<and> (\<forall>x \<in> set (take (length xs - MAX_CACHE_SIZE) xs).
            fst (isEventProcessed x (feed xs emptyCache)) = False)
       \<and> (\<forall>x \<in> set (drop (length xs - MAX_CACHE_SIZE) xs).
            isEventProcessed x (feed xs emptyCache) = (True, feed xs emptyCache))"
proof -
  let ?ys = "take (Suc MAX_CACHE_SIZE) xs"
  from assms obtain a rest where xs: "xs = a # rest" by (cases xs) auto
  have dys: "distinct ?ys" using assms(1) by simp
  have nys: "[] \<notin> set ?ys" using assms(2) by (auto dest: in_set_takeD)
  have lys: "length ?ys = Suc MAX_CACHE_SIZE" using assms(3) by simp
  have sys: "processedEvents (feed ?ys emptyCache) = set (tl ?ys)"
    using feed_fifo_empty(2) [OF dys nys] lys by (simp add: drop_Suc)
  have "hd xs \<notin> set (tl ?ys)" using dys xs by simp
  then have c1: "fst (isEventProcessed (hd xs) (feed ?ys emptyCache)) = False"
    by (simp add: fst_isEventProcessed sys)
  have c2: "\<forall>x \<in> set (tl ?ys). isEventProcessed x (feed ?ys emptyCache) = (True, feed ?ys emptyCache)"
    by (simp add: hit_unchanged sys)
  have c3: "processedEventsQueue (feed xs emptyCache) = drop (length xs - MAX_CACHE_SIZE) xs"
    using feed_fifo_empty(1) [OF assms(1,2)] .
  have c4: "processedEvents (feed xs emptyCache) = set (drop (length xs - MAX_CACHE_SIZE) xs)"
    using feed_fifo_empty(2) [OF assms(1,2)] .
  have "set (take (length xs - MAX_CACHE_SIZE) xs) \<inter> set (drop (length xs - MAX_CACHE_SIZE) xs) = {}"
    using assms(1) set_take_disj_set_drop_if_distinct by blast
  then have c5: "\<forall>x \<in> set (take (length xs - MAX_CACHE_SIZE) xs).
            fst (isEventProcessed x (feed xs emptyCache)) = False"
    by (auto simp: fst_isEventProcessed c4)
  have c6: "\<forall>x \<in> set (drop (length xs - MAX_CACHE_SIZE) xs).
            isEventProcessed x (feed xs emptyCache) = (True, feed xs emptyCache)"
    by (simp add: hit_unchanged c4)
  from c1 c2 c3 c4 c5 c6 show ?thesis by blast
qed

text \<open>The theorem at the 101 identifiers e, ee, eee, ...\<close>

theorem C1_fifo_eviction_witness:
  "distinct (ids 101) \<and> [] \<notin> set (ids 101) \<and> length (ids 101) > MAX_CACHE_SIZE
   \<and> fst (isEventProcessed (hd (ids 101)) (feed (ids 101) emptyCache)) = False
   \<and> processedEventsQueue (feed (ids 101) emptyCache) = tl (ids 101)
   \<and> processedEvents (feed (ids 101) emptyCache) = set (tl (ids 101))"
  using C1_fifo_eviction [of "ids 101"] distinct_ids [of 101] ids_nonempty [of 101]
    length_ids [of 101]
  by (simp add: MAX_CACHE_SIZE_def drop_Suc)

text \<open>
  C2, as amended. Let \<open>x\<close> be an identifier that has not been passed to
  \<open>isEventProcessed\<close> since the process started (\<open>zs\<close> are the earlier calls). The
  call with \<open>x\<close> returns false and records \<open>x\<close>; the next call with \<open>x\<close> returns true
  and changes nothing, so two calls in a row return (false, true); and a later call with
  \<open>x\<close> returns true as long as fewer than 100 new identifiers have been recorded in
  between (\<open>ys\<close> are the calls in between).
\<close>

theorem C2_first_false_then_true:
  assumes "x \<notin> set zs"
  shows "fst (isEventProcessed x (feed zs emptyCache)) = False
       \<and> x \<in> processedEvents (snd (isEventProcessed x (feed zs emptyCache)))
       \<and> isEventProcessed x (snd (isEventProcessed x (feed zs emptyCache)))
            = (True, snd (isEventProcessed x (feed zs emptyCache)))
       \<and> (\<forall>ys. misses ys (snd (isEventProcessed x (feed zs emptyCache))) < MAX_CACHE_SIZE
            \<longrightarrow> fst (isEventProcessed x (feed ys (snd (isEventProcessed x (feed zs emptyCache))))) = True)"
proof -
  let ?c = "feed zs emptyCache"
  let ?c1 = "snd (isEventProcessed x ?c)"
  have inv: "cache_inv ?c" by (simp add: cache_inv_feed cache_inv_empty)
  have inv1: "cache_inv ?c1" using inv by (rule cache_inv_step)
  have fresh: "x \<notin> processedEvents ?c"
    using feed_subset [of zs emptyCache] assms by (auto simp: emptyCache_def)
  then have a: "fst (isEventProcessed x ?c) = False" by (simp add: fst_isEventProcessed)
  from recorded_last [OF inv fresh] obtain pre where q1: "processedEventsQueue ?c1 = pre @ x # []"
    by blast
  with inv1 have b: "x \<in> processedEvents ?c1" by (auto simp: cache_inv_def)
  then have c: "isEventProcessed x ?c1 = (True, ?c1)" by (rule hit_unchanged)
  have d: "\<forall>ys. misses ys ?c1 < MAX_CACHE_SIZE \<longrightarrow> fst (isEventProcessed x (feed ys ?c1)) = True"
  proof (intro allI impI)
    fix ys assume "misses ys ?c1 < MAX_CACHE_SIZE"
    then have "length ([]::string list) + misses ys ?c1 < MAX_CACHE_SIZE" by simp
    from retained_in_queue [OF inv1 q1 this]
    have "x \<in> set (processedEventsQueue (feed ys ?c1))" .
    moreover have "cache_inv (feed ys ?c1)" using inv1 by (rule cache_inv_feed)
    ultimately have "x \<in> processedEvents (feed ys ?c1)" by (auto simp: cache_inv_def)
    then show "fst (isEventProcessed x (feed ys ?c1)) = True" by (simp add: fst_isEventProcessed)
  qed
  from a b c d show ?thesis by blast
qed

text \<open>The theorem at a new identifier after three others, with three calls in between.\<close>

theorem C2_first_false_then_true_witness:
  "''new'' \<notin> set (ids 3)
   \<and> fst (isEventProcessed ''new'' (feed (ids 3) emptyCache)) = False
   \<and> isEventProcessed ''new'' (snd (isEventProcessed ''new'' (feed (ids 3) emptyCache)))
        = (True, snd (isEventProcessed ''new'' (feed (ids 3) emptyCache)))
   \<and> misses (ids 3) (snd (isEventProcessed ''new'' (feed (ids 3) emptyCache))) < MAX_CACHE_SIZE
   \<and> fst (isEventProcessed ''new''
        (feed (ids 3) (snd (isEventProcessed ''new'' (feed (ids 3) emptyCache))))) = True"
proof -
  have fresh: "''new'' \<notin> set (ids 3)" by (auto simp: ids_def)
  have few: "misses (ids 3) (snd (isEventProcessed ''new'' (feed (ids 3) emptyCache))) < MAX_CACHE_SIZE"
    using misses_le_length [of "ids 3" "snd (isEventProcessed ''new'' (feed (ids 3) emptyCache))"]
    by (simp add: length_ids MAX_CACHE_SIZE_def)
  from C2_first_false_then_true [OF fresh] fresh few show ?thesis by blast
qed

text \<open>
  C2 as stated fails once the identifier has been evicted: ''e'' is recorded by its first
  call, 100 other identifiers follow, and the next call with ''e'' returns false again.
\<close>

theorem C2_evicted_counterexample:
  "hd (ids 101) = ''e'' \<and> length (tl (ids 101)) = 100 \<and> ''e'' \<notin> set (tl (ids 101))
   \<and> fst (isEventProcessed ''e'' emptyCache) = False
   \<and> fst (isEventProcessed ''e'' (feed (tl (ids 101)) (snd (isEventProcessed ''e'' emptyCache)))) = False"
proof -
  have h: "hd (ids 101) = ''e''" using hd_ids [of 100] by simp
  have l: "length (ids 101) = 101" by (rule length_ids)
  then have split: "ids 101 = ''e'' # tl (ids 101)" using h by (cases "ids 101") auto
  have d: "distinct (ids 101)" by (rule distinct_ids)
  with split have notin: "''e'' \<notin> set (tl (ids 101))" by (metis distinct.simps(2))
  have "processedEvents (feed (ids 101) emptyCache) = set (drop 1 (ids 101))"
    using feed_fifo_empty(2) [OF d ids_nonempty] l by (simp add: MAX_CACHE_SIZE_def)
  then have "''e'' \<notin> processedEvents (feed (ids 101) emptyCache)"
    using notin by (simp add: drop_Suc)
  moreover have "feed (ids 101) emptyCache = feed (tl (ids 101)) (snd (isEventProcessed ''e'' emptyCache))"
    by (subst split) simp
  ultimately show ?thesis using h l notin
    by (simp add: fst_isEventProcessed emptyCache_def)
qed


section \<open>Properties of the history-based check\<close>







text \<open>
  C6. \<open>checkIfAlreadyResponded\<close> never hands an error to its caller: it returns a
  boolean for every environment and event. When the fetch of the thread fails, and when
  the identity lookup fails, it returns false ("not yet answered"), and the router's
  history step reports "not answered", so the router goes on to dispatch.
\<close>

theorem C6_history_check_fails_open:
  "(\<exists>b. checkIfAlreadyResponded env event = Inr b)
   \<and> (ev_ts event = Some ts
        \<and> conversations_replies env (ev_channel event) (threadTs_of (ev_thread_ts event) ts) 10 = Inl e
      \<longrightarrow> checkIfAlreadyResponded env event = Inr False \<and> fst (historyStep env event) = False)
   \<and> (auth_test_bot_id env = Inl e'
      \<longrightarrow> checkIfAlreadyResponded env event = Inr False \<and> fst (historyStep env event) = False)"
  by (auto simp: checkIfAlreadyResponded_def historyStep_def try_catch_def Let_def
           split: option.splits sum.splits prod.splits)

text \<open>
  The theorem at the mention at ts 100: once with a fetch that fails, once with a thread of
  two messages and an identity lookup that fails.
\<close>

theorem C6_history_check_fails_open_witness:
  "conversations_replies failing_fetch_env (ev_channel mention_event)
      (threadTs_of (ev_thread_ts mention_event) ''100'') 10 = Inl (ApiError ''ratelimited'')
   \<and> checkIfAlreadyResponded failing_fetch_env mention_event = Inr False
   \<and> fst (historyStep failing_fetch_env mention_event) = False
   \<and> auth_test_bot_id failing_auth_env = Inl (ApiError ''invalid_auth'')
   \<and> checkIfAlreadyResponded failing_auth_env mention_event = Inr False"
  using C6_history_check_fails_open [of failing_fetch_env mention_event "''100''"
          "ApiError ''ratelimited''" "ApiError ''x''"]
        C6_history_check_fails_open [of failing_auth_env mention_event "''100''"
          "ApiError ''x''" "ApiError ''invalid_auth''"]
  by (simp add: failing_fetch_env_def failing_auth_env_def env_with_thread_def demo_env_def
        mention_event_def blank_event_def)


section \<open>Properties of the signature verifier\<close>

lemma parseInt_demo: "parseInt_decimal ''1700000000'' = Some 1700000000"
  by (simp add: parseInt_decimal_def digits_value_def digit_of_def)

text \<open>Under the \<^verbatim>\<open>try/catch\<close>, the comparison is equality of the two strings.\<close>

lemma timingSafeEqual_caught:
  "try_catch (timingSafeEqual a b) (\<lambda>error. Inr False) = Inr (a = b)"
  by (auto simp: try_catch_def timingSafeEqual_def)

text \<open>
  A header is absent when no key of the header object has the lower-case form of its
  name; it is present, with a value, when the first key that has this lower-case form
  carries that value.
\<close>

lemma getHeader_absent:
  "(\<forall>kv \<in> set hs. toLowerCase env (fst kv) \<noteq> toLowerCase env name)
   \<Longrightarrow> getHeader env hs name = None"
proof -
  assume "\<forall>kv \<in> set hs. toLowerCase env (fst kv) \<noteq> toLowerCase env name"
  then have "find (\<lambda>kv. toLowerCase env (fst kv) = toLowerCase env name) hs = None"
    by (auto simp: find_None_iff)
  then show ?thesis by (simp add: getHeader_def)
qed

lemma getHeader_present:
  "find (\<lambda>kv. toLowerCase env (fst kv) = toLowerCase env name) hs = Some (k, v)
   \<Longrightarrow> getHeader env hs name = (if k \<noteq> [] then Some v else None)"
  by (simp add: getHeader_def)

text \<open>
  C7. \<open>isValidSlackRequest\<close> returns false when the timestamp header is absent, when the
  signature header is absent, when the timestamp (as \<^verbatim>\<open>parseInt\<close> reads it) is more than
  300 seconds away from the clock, and when the supplied signature is not \<^verbatim>\<open>v0=\<close>
  followed by the HMAC, under the signing secret, of \<^verbatim>\<open>v0:\<close>, the timestamp, a colon
  and the body. With the signature computed that way, a timestamp exactly 301 seconds old
  is refused and one exactly 300 seconds old is accepted. Header names are compared in
  lower case, with whatever \<^verbatim>\<open>toLowerCase\<close> computes (the environment is arbitrary).
\<close>

theorem C7_verifier_fails_closed:
  "((\<forall>kv \<in> set hs. toLowerCase env (fst kv) \<noteq> toLowerCase env ''X-Slack-Request-Timestamp'')
      \<longrightarrow> isValidSlackRequest env hs rawBody = Inr False)
   \<and> ((\<forall>kv \<in> set hs. toLowerCase env (fst kv) \<noteq> toLowerCase env ''X-Slack-Signature'')
      \<longrightarrow> isValidSlackRequest env hs rawBody = Inr False)
   \<and> (find (\<lambda>kv. toLowerCase env (fst kv) = toLowerCase env ''X-Slack-Request-Timestamp'') hs
          = Some (k, timestamp)
        \<and> parseInt env timestamp = Some t \<and> \<bar>now_ms env - 1000 * t\<bar> > 1000 * 300
      \<longrightarrow> isValidSlackRequest env hs rawBody = Inr False)
   \<and> (find (\<lambda>kv. toLowerCase env (fst kv) = toLowerCase env ''X-Slack-Request-Timestamp'') hs
          = Some (k, timestamp)
        \<and> find (\<lambda>kv. toLowerCase env (fst kv) = toLowerCase env ''X-Slack-Signature'') hs
          = Some (k', slackSignature)
        \<and> signingSecret env = Some secret
        \<and> slackSignature
            \<noteq> ''v0='' @ hmac_sha256_hex env secret (''v0:'' @ timestamp @ '':'' @ rawBody)
      \<longrightarrow> isValidSlackRequest env hs rawBody = Inr False)
   \<and> (find (\<lambda>kv. toLowerCase env (fst kv) = toLowerCase env ''X-Slack-Request-Timestamp'') hs
          = Some (k, timestamp)
        \<and> k \<noteq> [] \<and> timestamp \<noteq> []
        \<and> parseInt env timestamp = Some t
        \<and> signingSecret env = Some secret
        \<and> find (\<lambda>kv. toLowerCase env (fst kv) = toLowerCase env ''X-Slack-Signature'') hs
          = Some (k', ''v0='' @ hmac_sha256_hex env secret (''v0:'' @ timestamp @ '':'' @ rawBody))
        \<and> k' \<noteq> []
      \<longrightarrow> (now_ms env = 1000 * (t + 301) \<longrightarrow> isValidSlackRequest env hs rawBody = Inr False)
          \<and> (now_ms env = 1000 * (t + 300) \<longrightarrow> isValidSlackRequest env hs rawBody = Inr True))"
proof (intro conjI impI)
  assume "\<forall>kv \<in> set hs. toLowerCase env (fst kv) \<noteq> toLowerCase env ''X-Slack-Request-Timestamp''"
  then have "getHeader env hs ''X-Slack-Request-Timestamp'' = None"
    by (rule getHeader_absent)
  then show "isValidSlackRequest env hs rawBody = Inr False"
    by (simp add: isValidSlackRequest_def)
next
  assume "\<forall>kv \<in> set hs. toLowerCase env (fst kv) \<noteq> toLowerCase env ''X-Slack-Signature''"
  then have "getHeader env hs ''X-Slack-Signature'' = None"
    by (rule getHeader_absent)
  then show "isValidSlackRequest env hs rawBody = Inr False"
    by (simp add: isValidSlackRequest_def split: option.splits)
next
  assume a: "find (\<lambda>kv. toLowerCase env (fst kv) = toLowerCase env ''X-Slack-Request-Timestamp'') hs
          = Some (k, timestamp)
        \<and> parseInt env timestamp = Some t \<and> \<bar>now_ms env - 1000 * t\<bar> > 1000 * 300"
  then have "getHeader env hs ''X-Slack-Request-Timestamp'' = (if k \<noteq> [] then Some timestamp else None)"
    by (simp add: getHeader_present)
  with a show "isValidSlackRequest env hs rawBody = Inr False"
    by (simp add: isValidSlackRequest_def replay_window_exceeded_def split: option.splits)
next
  assume a: "find (\<lambda>kv. toLowerCase env (fst kv) = toLowerCase env ''X-Slack-Request-Timestamp'') hs
          = Some (k, timestamp)
        \<and> find (\<lambda>kv. toLowerCase env (fst kv) = toLowerCase env ''X-Slack-Signature'') hs
          = Some (k', slackSignature)
        \<and> signingSecret env = Some secret
        \<and> slackSignature
            \<noteq> ''v0='' @ hmac_sha256_hex env secret (''v0:'' @ timestamp @ '':'' @ rawBody)"
  then have "getHeader env hs ''X-Slack-Request-Timestamp'' = (if k \<noteq> [] then Some timestamp else None)"
    and "getHeader env hs ''X-Slack-Signature'' = (if k' \<noteq> [] then Some slackSignature else None)"
    by (simp_all add: getHeader_present)
  with a show "isValidSlackRequest env hs rawBody = Inr False"
    by (auto simp: isValidSlackRequest_def computedSignature_def timingSafeEqual_caught)
next
  assume a: "find (\<lambda>kv. toLowerCase env (fst kv) = toLowerCase env ''X-Slack-Request-Timestamp'') hs
          = Some (k, timestamp)
        \<and> k \<noteq> [] \<and> timestamp \<noteq> []
        \<and> parseInt env timestamp = Some t
        \<and> signingSecret env = Some secret
        \<and> find (\<lambda>kv. toLowerCase env (fst kv) = toLowerCase env ''X-Slack-Signature'') hs
          = Some (k', ''v0='' @ hmac_sha256_hex env secret (''v0:'' @ timestamp @ '':'' @ rawBody))
        \<and> k' \<noteq> []"
  then have h: "getHeader env hs ''X-Slack-Request-Timestamp'' = Some timestamp"
    "getHeader env hs ''X-Slack-Signature''
       = Some (''v0='' @ hmac_sha256_hex env secret (''v0:'' @ timestamp @ '':'' @ rawBody))"
    by (simp_all add: getHeader_present)
  {
    assume "now_ms env = 1000 * (t + 301)"
    with a h show "isValidSlackRequest env hs rawBody = Inr False"
      by (simp add: isValidSlackRequest_def replay_window_exceeded_def)
  }
  {
    assume "now_ms env = 1000 * (t + 300)"
    with a h show "isValidSlackRequest env hs rawBody = Inr True"
      by (simp add: isValidSlackRequest_def replay_window_exceeded_def timingSafeEqual_caught
            computedSignature_def)
  }
qed

text \<open>
  The theorem at concrete requests: no header at all; a timestamp and no signature; a
  signed request 301 seconds old; the same request 300 seconds old; and that request
  with another body than the signed one.
\<close>

theorem C7_verifier_fails_closed_witness:
  "isValidSlackRequest demo_env [] ''body'' = Inr False
   \<and> isValidSlackRequest demo_env [(''X-Slack-Request-Timestamp'', ''1700000000'')] ''body'' = Inr False
   \<and> isValidSlackRequest (env_aged 301) (signed_headers ''body'') ''body'' = Inr False
   \<and> isValidSlackRequest (env_aged 300) (signed_headers ''body'') ''body'' = Inr True
   \<and> isValidSlackRequest (env_aged 300) (signed_headers ''body'') ''tampered'' = Inr False"
proof -
  have lc: "toLowerCase demo_env = ascii_toLowerCase" "toLowerCase (env_aged n) = ascii_toLowerCase" for n
    by (simp_all add: env_aged_def demo_env_def)
  have nosig: "\<forall>kv \<in> set [(''X-Slack-Request-Timestamp'', ''1700000000'')].
                 toLowerCase demo_env (fst kv) \<noteq> toLowerCase demo_env ''X-Slack-Signature''"
    by (simp add: lc ascii_toLowerCase_def)
  have fts: "find (\<lambda>kv. toLowerCase (env_aged n) (fst kv)
                          = toLowerCase (env_aged n) ''X-Slack-Request-Timestamp'')
               (signed_headers ''body'')
             = Some (''X-Slack-Request-Timestamp'', ''1700000000'')" for n
    by (simp add: lc signed_headers_def ascii_toLowerCase_def)
  have fsig: "find (\<lambda>kv. toLowerCase (env_aged n) (fst kv)
                          = toLowerCase (env_aged n) ''X-Slack-Signature'')
               (signed_headers ''body'')
             = Some (''X-Slack-Signature'',
                     ''v0='' @ hmac_sha256_hex (env_aged n) ''secret''
                                (''v0:'' @ ''1700000000'' @ '':'' @ ''body''))" for n
    by (simp add: lc signed_headers_def ascii_toLowerCase_def env_aged_def demo_env_def)
  have p: "parseInt (env_aged n) ''1700000000'' = Some 1700000000" for n
    by (simp add: env_aged_def demo_env_def parseInt_demo)
  have s: "signingSecret (env_aged n) = Some ''secret''" for n
    by (simp add: env_aged_def demo_env_def)
  have t301: "now_ms (env_aged 301) = 1000 * (1700000000 + 301)"
    by (simp add: env_aged_def)
  have t300: "now_ms (env_aged 300) = 1000 * (1700000000 + 300)"
    by (simp add: env_aged_def)
  have tampered: "''v0='' @ hmac_sha256_hex (env_aged 300) ''secret''
                             (''v0:'' @ ''1700000000'' @ '':'' @ ''body'')
                  \<noteq> ''v0='' @ hmac_sha256_hex (env_aged 300) ''secret''
                             (''v0:'' @ ''1700000000'' @ '':'' @ ''tampered'')"
    by (simp add: env_aged_def demo_env_def stub_digest_def)
  from C7_verifier_fails_closed [of "[]" demo_env "''body''"]
  have w1: "isValidSlackRequest demo_env [] ''body'' = Inr False" by simp
  from C7_verifier_fails_closed [of "[(''X-Slack-Request-Timestamp'', ''1700000000'')]" demo_env "''body''"]
    nosig
  have w2: "isValidSlackRequest demo_env [(''X-Slack-Request-Timestamp'', ''1700000000'')] ''body'' = Inr False"
    by blast
  from C7_verifier_fails_closed [of "signed_headers ''body''" "env_aged 301" "''body''"
         "''X-Slack-Request-Timestamp''" "''1700000000''" 1700000000
         "''X-Slack-Signature''" _ "''secret''"]
    fts [of 301] fsig [of 301] p s t301
  have w3: "isValidSlackRequest (env_aged 301) (signed_headers ''body'') ''body'' = Inr False"
    by simp
  from C7_verifier_fails_closed [of "signed_headers ''body''" "env_aged 300" "''body''"
         "''X-Slack-Request-Timestamp''" "''1700000000''" 1700000000
         "''X-Slack-Signature''" _ "''secret''"]
    fts [of 300] fsig [of 300] p s t300
  have w4: "isValidSlackRequest (env_aged 300) (signed_headers ''body'') ''body'' = Inr True"
    by simp
  from C7_verifier_fails_closed [of "signed_headers ''body''" "env_aged 300" "''tampered''"
         "''X-Slack-Request-Timestamp''" "''1700000000''" _
         "''X-Slack-Signature''"
         "''v0='' @ hmac_sha256_hex (env_aged 300) ''secret''
                      (''v0:'' @ ''1700000000'' @ '':'' @ ''body'')" "''secret''"]
    fts [of 300] fsig [of 300] s tampered
  have w5: "isValidSlackRequest (env_aged 300) (signed_headers ''body'') ''tampered'' = Inr False"
    by simp
  from w1 w2 w3 w4 w5 show ?thesis by blast
qed


section \<open>Properties of the router\<close>

lemmas router_defs =
  handler_def dedupStep_def processEvent_def historyStep_def dispatch_def rawBody_of_def
  lambdaRequest_headers_def verifyRequest_def isValidSlackRequest_def getHeader_def
  replay_window_exceeded_def computedSignature_def timingSafeEqual_def
  try_catch_def getBotId_def checkIfAlreadyResponded_def threadTs_of_def isBotReply_def
  js_gt_def parseFloat_opt_def isRetryRequest_def isMessageEvent_def race_def thread_or_ts_def
  isDirectMessage_def dm_run_effects_def handleNewAssistantMessage_def truthy_def
  text_response_def isEventProcessed_def MAX_CACHE_SIZE_def emptyCache_def

lemmas demo_defs =
  demo_env_def env_parsing_def signed_request_def unsigned_request_def callback_def
  mention_event_def dm_event_def dm_thread_event_def blank_event_def quick_run_def slow_run_def
  stub_digest_def ascii_toLowerCase_def parseInt_decimal_def parseFloat_decimal_def digits_value_def digit_of_def
  slow_mention_env_def slow_dm_env_def throwing_dm_env_def

subsection \<open>Concrete runs\<close>

text \<open>A signed mention, answered in time.\<close>

lemma run_mention:
  "handler (env_parsing (callback mention_event)) emptyCache (signed_request ''body'')
   = (text_response 200 COMPLETED_TEXT,
      [DedupCacheCheck ''Ev1'', VerifyRequest, GetBotId, HistoryCheck, Invoke AppMention,
       Effect (PostMessage (Some ''C1'') (Some ''100'') ''answer'')],
      \<lparr>processedEvents = {''Ev1''}, processedEventsQueue = [''Ev1'']\<rparr>)"
  by (simp add: router_defs demo_defs Let_def)

text \<open>A signed mention whose handler loses the race: the router posts the apology.\<close>

lemma run_slow_mention:
  "handler slow_mention_env emptyCache (signed_request ''body'')
   = (text_response 200 COMPLETED_TEXT,
      [DedupCacheCheck ''Ev1'', VerifyRequest, GetBotId, HistoryCheck, Invoke AppMention,
       Effect (PostMessage (Some ''C1'') (Some ''100'') APOLOGY_TEXT)],
      \<lparr>processedEvents = {''Ev1''}, processedEventsQueue = [''Ev1'']\<rparr>)"
  by (simp add: router_defs demo_defs Let_def)

text \<open>A signed direct message in a thread whose handler loses the race.\<close>

lemma run_slow_dm:
  "handler slow_dm_env emptyCache (signed_request ''body'')
   = (text_response 200 COMPLETED_TEXT,
      [DedupCacheCheck ''Ev1'', VerifyRequest, GetBotId, HistoryCheck, Invoke DirectMessage,
       Effect (PostMessage (Some ''D1'') (Some ''90'') ''is thinking...'')],
      \<lparr>processedEvents = {''Ev1''}, processedEventsQueue = [''Ev1'']\<rparr>)"
  by (simp add: router_defs demo_defs Let_def)

text \<open>A signed direct message in a thread whose response generator throws.\<close>

lemma run_throwing_dm:
  "handler throwing_dm_env emptyCache (signed_request ''body'')
   = (text_response 200 COMPLETED_TEXT,
      [DedupCacheCheck ''Ev1'', VerifyRequest, GetBotId, HistoryCheck, Invoke DirectMessage,
       Effect (PostMessage (Some ''D1'') (Some ''90'') ''is thinking...''),
       Effect (FetchThread (Some ''D1'') ''90'' 50),
       Effect GenerateResponse],
      \<lparr>processedEvents = {''Ev1''}, processedEventsQueue = [''Ev1'']\<rparr>)"
  by (simp add: router_defs demo_defs Let_def)

text \<open>A signed direct message at the top level.\<close>

lemma run_top_level_dm:
  "handler (env_parsing (callback dm_event)) emptyCache (signed_request ''body'')
   = (text_response 200 COMPLETED_TEXT,
      [DedupCacheCheck ''Ev1'', VerifyRequest, GetBotId, HistoryCheck, Invoke DirectMessage],
      \<lparr>processedEvents = {''Ev1''}, processedEventsQueue = [''Ev1'']\<rparr>)"
  by (simp add: router_defs demo_defs Let_def)

text \<open>The signed mention sent to the older route.\<close>

lemma run_POST_mention:
  "POST (env_parsing (callback mention_event)) emptyCache ''body'' (signed_headers ''body'')
   = Inr (text_response 200 ''Success!'',
          [DedupCacheCheck ''Ev1'', VerifyRequest, GetBotId, HistoryCheck, Invoke AppMention],
          \<lparr>processedEvents = {''Ev1''}, processedEventsQueue = [''Ev1'']\<rparr>)"
  by (simp add: POST_def POST_route_def POST_history_def signed_headers_def router_defs demo_defs
        Let_def)

subsection \<open>Status codes\<close>

lemma statusCode_text_response: "statusCode (text_response n b) = n"
  by (simp add: text_response_def)

lemma processEvent_status:
  "statusCode (fst (processEvent env event requestType slackEvent rawBody)) = 200"
  by (simp add: processEvent_def Let_def statusCode_text_response split: sum.splits)

lemma handler_payload_status:
  "JSON_parse env (rawBody_of env event) = Inr (JPayload payload)
   \<Longrightarrow> statusCode (fst (handler env c event)) = 200"
  by (simp add: handler_def Let_def statusCode_text_response processEvent_status
        split: option.splits)

lemma handler_null_status:
  "JSON_parse env (rawBody_of env event) = Inr JNull
   \<Longrightarrow> statusCode (fst (handler env c event)) = 500"
  by (simp add: handler_def Let_def error_response_def statusCode_text_response)

lemma handler_error_status:
  "JSON_parse env (rawBody_of env event) = Inl e
   \<Longrightarrow> statusCode (fst (handler env c event)) = 500"
  by (simp add: handler_def Let_def error_response_def statusCode_text_response)

text \<open>
  C4, as amended. For every request to the Lambda handler whose body parses to a JSON
  value other than \<^verbatim>\<open>null\<close>, the answer is HTTP 200, whatever the verification, the
  two dedup checks, the identity lookup and the response handler do (the environment is
  arbitrary). The answer is HTTP 500 exactly when the body does not parse or parses to
  \<^verbatim>\<open>null\<close>, and it is never another status.
\<close>

theorem C4_status_codes:
  "(JSON_parse env (rawBody_of env event) = Inr (JPayload payload)
      \<longrightarrow> statusCode (fst (handler env c event)) = 200)
   \<and> (statusCode (fst (handler env c event)) = 500
      \<longleftrightarrow> JSON_parse env (rawBody_of env event) = Inr JNull
          \<or> (\<exists>e. JSON_parse env (rawBody_of env event) = Inl e))
   \<and> (statusCode (fst (handler env c event)) = 200 \<or> statusCode (fst (handler env c event)) = 500)"
proof (cases "JSON_parse env (rawBody_of env event)")
  case (Inl e)
  then show ?thesis by (simp add: handler_error_status)
next
  case (Inr v)
  show ?thesis
  proof (cases v)
    case JNull
    with Inr show ?thesis by (simp add: handler_null_status)
  next
    case (JPayload p)
    with Inr show ?thesis by (simp add: handler_payload_status)
  qed
qed

text \<open>
  The theorem at a signed mention whose handler times out (200) and at a body that does
  not parse (500).
\<close>

theorem C4_status_codes_witness:
  "JSON_parse slow_mention_env (rawBody_of slow_mention_env (signed_request ''body''))
     = Inr (JPayload (callback mention_event))
   \<and> statusCode (fst (handler slow_mention_env emptyCache (signed_request ''body''))) = 200
   \<and> JSON_parse demo_env (rawBody_of demo_env (unsigned_request ''{oops''))
     = Inl (SyntaxError ''Unexpected token'')
   \<and> statusCode (fst (handler demo_env emptyCache (unsigned_request ''{oops''))) = 500"
proof -
  have p: "JSON_parse slow_mention_env (rawBody_of slow_mention_env (signed_request ''body''))
     = Inr (JPayload (callback mention_event))"
    by (simp add: slow_mention_env_def env_parsing_def)
  have q: "JSON_parse demo_env (rawBody_of demo_env (unsigned_request ''{oops''))
     = Inl (SyntaxError ''Unexpected token'')"
    by (simp add: demo_env_def rawBody_of_def unsigned_request_def)
  from C4_status_codes [of slow_mention_env "signed_request ''body''" "callback mention_event" emptyCache]
    C4_status_codes [of demo_env "unsigned_request ''{oops''" _ emptyCache] p q
  show ?thesis by simp
qed

text \<open>
  C4 as stated fails on the body \<^verbatim>\<open>null\<close>: it parses as JSON, reading
  \<^verbatim>\<open>payload.type\<close> throws inside the outer \<^verbatim>\<open>try\<close>, and the answer is 500.
\<close>

theorem C4_null_body_counterexample:
  "JSON_parse demo_env (rawBody_of demo_env (unsigned_request ''null'')) = Inr JNull
   \<and> statusCode (fst (handler demo_env emptyCache (unsigned_request ''null''))) = 500"
  by (simp add: handler_def demo_env_def rawBody_of_def unsigned_request_def error_response_def
        text_response_def)

text \<open>
  The older route answers 200 or 500 once the body has parsed to a value other than
  \<^verbatim>\<open>null\<close>: 500 exactly when, past the dedup check, the identity lookup throws or the
  payload has no event.
\<close>

lemma POST_status:
  assumes "JSON_parse env rawBody = Inr (JPayload payload)"
  shows "\<exists>r tr c'. POST env c rawBody hs = Inr (r, tr, c')
           \<and> (statusCode r = 200 \<or> statusCode r = 500)
           \<and> (statusCode r = 500 \<longleftrightarrow>
                 p_type payload \<noteq> Some ''url_verification'' \<and> \<not> fst (dedupStep payload c)
                 \<and> ((\<exists>e. getBotId env = Inl e) \<or> p_event payload = None))"
  using assms
  by (auto simp: POST_def POST_route_def Let_def text_response_def split: sum.splits option.splits)

text \<open>The older route at the signed mention, with an identity lookup that fails: 500.\<close>

lemma POST_status_witness:
  "JSON_parse failing_identity_env ''body'' = Inr (JPayload (callback mention_event))
   \<and> POST failing_identity_env emptyCache ''body'' (signed_headers ''body'')
       = Inr (text_response 500 ''Error generating response'',
              [DedupCacheCheck ''Ev1'', VerifyRequest, GetBotId],
              \<lparr>processedEvents = {''Ev1''}, processedEventsQueue = [''Ev1'']\<rparr>)
   \<and> statusCode (text_response 500 ''Error generating response'') = 500"
proof -
  have p: "JSON_parse failing_identity_env ''body'' = Inr (JPayload (callback mention_event))"
    by (simp add: failing_identity_env_def env_parsing_def)
  have e: "POST failing_identity_env emptyCache ''body'' (signed_headers ''body'')
       = Inr (text_response 500 ''Error generating response'',
              [DedupCacheCheck ''Ev1'', VerifyRequest, GetBotId],
              \<lparr>processedEvents = {''Ev1''}, processedEventsQueue = [''Ev1'']\<rparr>)"
    by (simp add: POST_def failing_identity_env_def signed_headers_def router_defs demo_defs
          Let_def)
  from POST_status [OF p, of emptyCache "signed_headers ''body''"] p e show ?thesis
    by (simp add: statusCode_text_response)
qed

subsection \<open>The URL verification handshake\<close>

lemma JSON_escape_plain:
  "c \<noteq> CHR 0x22 \<Longrightarrow> c \<noteq> CHR 0x5C \<Longrightarrow> 32 \<le> (of_char c :: nat) \<Longrightarrow> JSON_escape c = [c]"
  by (auto simp: JSON_escape_def)

lemma JSON_stringify_plain:
  "plain_string s \<Longrightarrow> JSON_stringify_string s = [CHR 0x22] @ s @ [CHR 0x22]"
proof -
  assume "plain_string s"
  then have "concat (map JSON_escape s) = s"
    by (induction s) (simp_all add: plain_string_def JSON_escape_plain)
  then show ?thesis by (simp add: JSON_stringify_string_def)
qed

text \<open>
  C9. For every payload with type \<^verbatim>\<open>url_verification\<close> and a challenge, the Lambda
  handler answers HTTP 200 with the body \<^verbatim>\<open>{"challenge":...}\<close> holding the challenge as a
  JSON string (the challenge itself between quotes when it needs no escaping), runs no
  step of the pipeline and leaves the cache as it is; the older route answers HTTP 200
  with the challenge as its body.
\<close>

theorem C9_url_verification_echo:
  assumes "p_type payload = Some ''url_verification''"
    and "p_challenge payload = Some challenge"
  shows "(JSON_parse env (rawBody_of env event) = Inr (JPayload payload) \<longrightarrow>
            statusCode (fst (handler env c event)) = 200
          \<and> resp_body (fst (handler env c event)) =
              [CHR 0x7B, CHR 0x22] @ ''challenge'' @ [CHR 0x22, CHR 0x3A]
                @ JSON_stringify_string challenge @ [CHR 0x7D]
          \<and> (plain_string challenge \<longrightarrow>
               resp_body (fst (handler env c event)) =
                 [CHR 0x7B, CHR 0x22] @ ''challenge'' @ [CHR 0x22, CHR 0x3A, CHR 0x22]
                   @ challenge @ [CHR 0x22, CHR 0x7D])
          \<and> snd (handler env c event) = ([], c))
       \<and> (JSON_parse env rawBody = Inr (JPayload payload) \<longrightarrow>
            POST env c rawBody hs = Inr (text_response 200 challenge, [], c))"
  using assms
  by (simp add: handler_def POST_def Let_def challenge_body_def JSON_stringify_plain)

text \<open>The theorem at the challenge abc123.\<close>

theorem C9_url_verification_echo_witness:
  "statusCode (fst (handler (env_parsing (challenge_payload ''abc123'')) emptyCache
      (unsigned_request ''body''))) = 200
   \<and> resp_body (fst (handler (env_parsing (challenge_payload ''abc123'')) emptyCache
      (unsigned_request ''body''))) =
       [CHR 0x7B, CHR 0x22] @ ''challenge'' @ [CHR 0x22, CHR 0x3A, CHR 0x22]
         @ ''abc123'' @ [CHR 0x22, CHR 0x7D]
   \<and> POST (env_parsing (challenge_payload ''abc123'')) emptyCache ''body'' []
       = Inr (text_response 200 ''abc123'', [], emptyCache)"
proof -
  have p: "JSON_parse (env_parsing (challenge_payload ''abc123''))
             (rawBody_of (env_parsing (challenge_payload ''abc123'')) (unsigned_request ''body''))
           = Inr (JPayload (challenge_payload ''abc123''))"
    by (simp add: env_parsing_def)
  have p': "JSON_parse (env_parsing (challenge_payload ''abc123'')) ''body''
           = Inr (JPayload (challenge_payload ''abc123''))"
    by (simp add: env_parsing_def)
  have t: "p_type (challenge_payload ''abc123'') = Some ''url_verification''"
    and ch: "p_challenge (challenge_payload ''abc123'') = Some ''abc123''"
    by (simp_all add: challenge_payload_def)
  have pl: "plain_string ''abc123''" by (simp add: plain_string_def)
  from C9_url_verification_echo [OF t ch, of "env_parsing (challenge_payload ''abc123'')"
         "unsigned_request ''body''" emptyCache "''body''" "[]"] p p' pl
  show ?thesis by (simp add: JSON_stringify_plain)
qed

subsection \<open>The order of the steps\<close>

lemma pipeline_stages_append: "pipeline_stages (xs @ ys) = pipeline_stages xs @ pipeline_stages ys"
  by (simp add: pipeline_stages_def)

lemma pipeline_stages_Cons:
  "pipeline_stages (a # xs) = (if stage a < 5 then stage a # pipeline_stages xs else pipeline_stages xs)"
  by (simp add: pipeline_stages_def)

lemma pipeline_stages_Nil: "pipeline_stages [] = []"
  by (simp add: pipeline_stages_def)

lemma pipeline_stages_dispatch:
  "pipeline_stages (dispatch env slackEvent botUserId timeoutMs) = []
   \<or> pipeline_stages (dispatch env slackEvent botUserId timeoutMs) = [4]"
proof -
  have e: "pipeline_stages (Invoke k # map Effect es @ map Effect es') = [4]" for k es es'
    unfolding map_append [symmetric] by (simp add: pipeline_stages_def filter_empty_conv)
  have e0: "pipeline_stages (Invoke k # map Effect es) = [4]" for k es
    using e [of k es "[]"] by simp
  have e1: "pipeline_stages (Invoke k # map Effect es @ [Effect x]) = [4]" for k es x
    using e [of k es "[x]"] by simp
  show ?thesis
    by (simp add: dispatch_def Let_def e0 e1 split: sum.splits) (simp add: pipeline_stages_def)
qed

lemma pipeline_stages_history:
  "pipeline_stages (snd (historyStep env slackEvent)) = []
   \<or> pipeline_stages (snd (historyStep env slackEvent)) = [3]"
  by (simp add: historyStep_def pipeline_stages_def split: sum.splits)

lemma pipeline_stages_processEvent:
  "pipeline_stages (snd (processEvent env event requestType slackEvent rawBody))
     \<in> {[1], [1, 2], [1, 2, 3], [1, 2, 4], [1, 2, 3, 4]}"
proof (cases "getBotId env")
  case (Inl e)
  then show ?thesis
    by (simp add: processEvent_def pipeline_stages_Cons pipeline_stages_Nil)
next
  case (Inr botUserId)
  let ?t = "if (case req_headers event of None \<Rightarrow> False | Some hs \<Rightarrow> isRetryRequest env hs)
            then 120000 else 160000"
  from pipeline_stages_history [of env slackEvent]
    pipeline_stages_dispatch [of env slackEvent botUserId ?t] Inr
  show ?thesis
    unfolding processEvent_def Let_def
    by (auto simp: pipeline_stages_Cons pipeline_stages_Nil pipeline_stages_append)
qed

lemma pipeline_stages_dedup:
  "pipeline_stages (fst (snd (dedupStep payload c))) = []
   \<or> pipeline_stages (fst (snd (dedupStep payload c))) = [0]"
  by (simp add: dedupStep_def Let_def pipeline_stages_Cons pipeline_stages_Nil split: option.splits)

lemma pipeline_stages_dedup_truthy:
  "p_type payload = Some ''event_callback'' \<Longrightarrow> p_event payload = Some e
   \<Longrightarrow> truthy (p_event_id payload)
   \<Longrightarrow> pipeline_stages (fst (snd (dedupStep payload c))) = [0]"
  by (auto simp: dedupStep_def Let_def pipeline_stages_Cons pipeline_stages_Nil truthy_def
           split: option.splits)

text \<open>The pipeline steps of a trace of the handler, in all their possible sequences.\<close>

lemma handler_stages:
  "pipeline_stages (trace_of env c event)
     \<in> {[], [0], [1], [1, 2], [1, 2, 3], [1, 2, 4], [1, 2, 3, 4],
         [0, 1], [0, 1, 2], [0, 1, 2, 3], [0, 1, 2, 4], [0, 1, 2, 3, 4]}"
proof (cases "JSON_parse env (rawBody_of env event)")
  case (Inl e)
  then show ?thesis by (simp add: trace_of_def handler_def pipeline_stages_Nil)
next
  case (Inr v)
  show ?thesis
  proof (cases v)
    case JNull
    with Inr show ?thesis by (simp add: trace_of_def handler_def pipeline_stages_Nil)
  next
    case (JPayload payload)
    show ?thesis
    proof (cases "p_event payload")
      case None
      with Inr JPayload pipeline_stages_dedup [of payload c] show ?thesis
        by (auto simp: trace_of_def handler_def Let_def pipeline_stages_Nil)
    next
      case (Some slackEvent)
      with Inr JPayload pipeline_stages_dedup [of payload c]
        pipeline_stages_processEvent [of env event "p_type payload" slackEvent "rawBody_of env event"]
      show ?thesis
        by (auto simp: trace_of_def handler_def Let_def pipeline_stages_Nil pipeline_stages_append)
    qed
  qed
qed

lemma handler_stages_with_id:
  assumes "JSON_parse env (rawBody_of env event) = Inr (JPayload payload)"
    and "truthy (p_event_id payload)"
  shows "pipeline_stages (trace_of env c event)
           \<in> {[], [0], [0, 1], [0, 1, 2], [0, 1, 2, 3], [0, 1, 2, 4], [0, 1, 2, 3, 4]}"
proof (cases "p_event payload")
  case None
  with assms pipeline_stages_dedup [of payload c] show ?thesis
    by (auto simp: trace_of_def handler_def Let_def pipeline_stages_Nil)
next
  case (Some slackEvent)
  show ?thesis
  proof (cases "p_type payload = Some ''event_callback''")
    case True
    with assms Some pipeline_stages_dedup_truthy [of payload slackEvent c]
      pipeline_stages_processEvent [of env event "p_type payload" slackEvent "rawBody_of env event"]
    show ?thesis
      by (auto simp: trace_of_def handler_def Let_def pipeline_stages_Nil pipeline_stages_append)
  next
    case False
    with assms Some pipeline_stages_dedup [of payload c] show ?thesis
      by (auto simp: trace_of_def handler_def Let_def pipeline_stages_Nil)
  qed
qed

lemma pipeline_stages_POST_history:
  "pipeline_stages (snd (POST_history env event)) = []
   \<or> pipeline_stages (snd (POST_history env event)) = [3]"
  by (simp add: POST_history_def pipeline_stages_Cons pipeline_stages_Nil split: sum.splits)

lemma pipeline_stages_POST_route:
  "pipeline_stages (snd (POST_route env event botUserId)) \<in> {[], [3], [4], [3, 4]}"
  using pipeline_stages_POST_history [of env event]
  by (auto simp: POST_route_def Let_def pipeline_stages_Cons pipeline_stages_Nil
        pipeline_stages_append)

lemma POST_stages:
  "pipeline_stages (POST_trace env c rawBody hs)
     \<in> {[], [0], [1, 2], [1, 2, 3], [1, 2, 4], [1, 2, 3, 4],
         [0, 1, 2], [0, 1, 2, 3], [0, 1, 2, 4], [0, 1, 2, 3, 4]}"
proof (cases "JSON_parse env rawBody")
  case (Inl e)
  then show ?thesis by (simp add: POST_trace_def POST_def pipeline_stages_Nil)
next
  case (Inr v)
  show ?thesis
  proof (cases v)
    case JNull
    with Inr show ?thesis by (simp add: POST_trace_def POST_def pipeline_stages_Nil)
  next
    case (JPayload payload)
    show ?thesis
    proof (cases "getBotId env")
      case (Inl e)
      with Inr JPayload pipeline_stages_dedup [of payload c] show ?thesis
        by (auto simp: POST_trace_def POST_def Let_def pipeline_stages_Nil pipeline_stages_Cons
              pipeline_stages_append)
    next
      case bot: (Inr botUserId)
      show ?thesis
      proof (cases "p_event payload")
        case None
        with Inr JPayload bot pipeline_stages_dedup [of payload c] show ?thesis
          by (auto simp: POST_trace_def POST_def Let_def pipeline_stages_Nil pipeline_stages_Cons
                pipeline_stages_append)
      next
        case (Some event)
        with Inr JPayload bot pipeline_stages_dedup [of payload c]
          pipeline_stages_POST_route [of env event botUserId]
        show ?thesis
          by (auto simp: POST_trace_def POST_def Let_def pipeline_stages_Nil pipeline_stages_Cons
                pipeline_stages_append)
      qed
    qed
  qed
qed

lemma POST_stages_with_id:
  assumes "JSON_parse env rawBody = Inr (JPayload payload)"
    and "p_type payload = Some ''event_callback''" and "p_event payload = Some event"
    and "truthy (p_event_id payload)"
  shows "pipeline_stages (POST_trace env c rawBody hs)
           \<in> {[0], [0, 1, 2], [0, 1, 2, 3], [0, 1, 2, 4], [0, 1, 2, 3, 4]}"
proof (cases "getBotId env")
  case (Inl e)
  with assms pipeline_stages_dedup_truthy [of payload event c] show ?thesis
    by (auto simp: POST_trace_def POST_def Let_def pipeline_stages_Nil pipeline_stages_Cons
          pipeline_stages_append)
next
  case bot: (Inr botUserId)
  with assms pipeline_stages_dedup_truthy [of payload event c]
    pipeline_stages_POST_route [of env event botUserId]
  show ?thesis
    by (auto simp: POST_trace_def POST_def Let_def pipeline_stages_Nil pipeline_stages_Cons
          pipeline_stages_append)
qed

text \<open>
  Whether a step comes first can be read off the pipeline steps alone: the handlers'
  effects are of no stage below 5.
\<close>

lemma performed_before_stages:
  assumes "\<And>a. A a \<longleftrightarrow> stage a = i" and "\<And>a. B a \<longleftrightarrow> stage a = j"
    and "i < 5" and "j < 5"
  shows "performed_before A B tr
     \<longleftrightarrow> j \<notin> set (takeWhile (\<lambda>n. n \<noteq> i) (pipeline_stages tr))"
  using assms(3,4)
  by (induction tr) (auto simp: assms(1,2) pipeline_stages_Cons pipeline_stages_Nil)

lemma performed_before_from_stages:
  "performed_before is_verification is_history_check tr
     \<longleftrightarrow> 3 \<notin> set (takeWhile (\<lambda>n. n \<noteq> 1) (pipeline_stages tr))"
  "performed_before is_verification is_dispatch tr
     \<longleftrightarrow> 4 \<notin> set (takeWhile (\<lambda>n. n \<noteq> 1) (pipeline_stages tr))"
  "performed_before is_cache_check is_verification tr
     \<longleftrightarrow> 1 \<notin> set (takeWhile (\<lambda>n. n \<noteq> 0) (pipeline_stages tr))"
  "performed_before is_cache_check is_history_check tr
     \<longleftrightarrow> 3 \<notin> set (takeWhile (\<lambda>n. n \<noteq> 0) (pipeline_stages tr))"
  "performed_before is_cache_check is_dispatch tr
     \<longleftrightarrow> 4 \<notin> set (takeWhile (\<lambda>n. n \<noteq> 0) (pipeline_stages tr))"
  by (rule performed_before_stages;
      simp add: is_verification_def is_history_check_def is_dispatch_def is_cache_check_def)+

text \<open>
  The order in which the code performs its steps, in the Lambda handler and in the older
  route alike: dedup-cache check, signature verification, identity lookup, history-based
  check, handler dispatch, each at most once (their stages increase strictly along the
  trace). The history-based check and the dispatch are never performed unless the
  signature verification has been performed before them; and for an \<^verbatim>\<open>event_callback\<close>
  with an event and a non-empty \<^verbatim>\<open>event_id\<close> the dedup-cache check is performed before
  all of them, the signature verification included.
\<close>

lemma pipeline_order:
  "sorted_wrt (<) (pipeline_stages (trace_of env c event))
   \<and> performed_before is_verification is_history_check (trace_of env c event)
   \<and> performed_before is_verification is_dispatch (trace_of env c event)
   \<and> sorted_wrt (<) (pipeline_stages (POST_trace env c rawBody hs))
   \<and> performed_before is_verification is_history_check (POST_trace env c rawBody hs)
   \<and> performed_before is_verification is_dispatch (POST_trace env c rawBody hs)
   \<and> (p_type payload = Some ''event_callback'' \<and> p_event payload = Some slackEvent
        \<and> truthy (p_event_id payload)
      \<longrightarrow> (JSON_parse env (rawBody_of env event) = Inr (JPayload payload)
            \<longrightarrow> performed_before is_cache_check is_verification (trace_of env c event)
                \<and> performed_before is_cache_check is_history_check (trace_of env c event)
                \<and> performed_before is_cache_check is_dispatch (trace_of env c event))
          \<and> (JSON_parse env rawBody = Inr (JPayload payload)
            \<longrightarrow> performed_before is_cache_check is_verification (POST_trace env c rawBody hs)
                \<and> performed_before is_cache_check is_history_check (POST_trace env c rawBody hs)
                \<and> performed_before is_cache_check is_dispatch (POST_trace env c rawBody hs)))"
proof -
  have a: "sorted_wrt (<) (pipeline_stages (trace_of env c event))
         \<and> performed_before is_verification is_history_check (trace_of env c event)
         \<and> performed_before is_verification is_dispatch (trace_of env c event)"
    using handler_stages [of env c event] unfolding performed_before_from_stages by auto
  have a': "sorted_wrt (<) (pipeline_stages (POST_trace env c rawBody hs))
         \<and> performed_before is_verification is_history_check (POST_trace env c rawBody hs)
         \<and> performed_before is_verification is_dispatch (POST_trace env c rawBody hs)"
    using POST_stages [of env c rawBody hs] unfolding performed_before_from_stages by auto
  have b: "performed_before is_cache_check is_verification (trace_of env c event)
          \<and> performed_before is_cache_check is_history_check (trace_of env c event)
          \<and> performed_before is_cache_check is_dispatch (trace_of env c event)"
    if "JSON_parse env (rawBody_of env event) = Inr (JPayload payload)" "truthy (p_event_id payload)"
    using handler_stages_with_id [OF that, of c] unfolding performed_before_from_stages by auto
  have b': "performed_before is_cache_check is_verification (POST_trace env c rawBody hs)
          \<and> performed_before is_cache_check is_history_check (POST_trace env c rawBody hs)
          \<and> performed_before is_cache_check is_dispatch (POST_trace env c rawBody hs)"
    if "JSON_parse env rawBody = Inr (JPayload payload)"
      "p_type payload = Some ''event_callback''" "p_event payload = Some slackEvent"
      "truthy (p_event_id payload)"
    using POST_stages_with_id [OF that, of c hs] unfolding performed_before_from_stages by auto
  from a a' b b' show ?thesis by blast
qed

text \<open>The theorem at the signed mention, sent to the handler and to the older route.\<close>

lemma pipeline_order_at_mention:
  "p_type (callback mention_event) = Some ''event_callback''
   \<and> p_event (callback mention_event) = Some mention_event
   \<and> truthy (p_event_id (callback mention_event))
   \<and> JSON_parse (env_parsing (callback mention_event))
      (rawBody_of (env_parsing (callback mention_event)) (signed_request ''body''))
     = Inr (JPayload (callback mention_event))
   \<and> JSON_parse (env_parsing (callback mention_event)) ''body''
     = Inr (JPayload (callback mention_event))
   \<and> trace_of (env_parsing (callback mention_event)) emptyCache (signed_request ''body'')
     = [DedupCacheCheck ''Ev1'', VerifyRequest, GetBotId, HistoryCheck, Invoke AppMention,
        Effect (PostMessage (Some ''C1'') (Some ''100'') ''answer'')]
   \<and> POST_trace (env_parsing (callback mention_event)) emptyCache ''body'' (signed_headers ''body'')
     = [DedupCacheCheck ''Ev1'', VerifyRequest, GetBotId, HistoryCheck, Invoke AppMention]
   \<and> sorted_wrt (<) (pipeline_stages
        (trace_of (env_parsing (callback mention_event)) emptyCache (signed_request ''body'')))
   \<and> performed_before is_cache_check is_verification
        (trace_of (env_parsing (callback mention_event)) emptyCache (signed_request ''body''))
   \<and> performed_before is_verification is_history_check
        (trace_of (env_parsing (callback mention_event)) emptyCache (signed_request ''body''))
   \<and> performed_before is_verification is_dispatch
        (trace_of (env_parsing (callback mention_event)) emptyCache (signed_request ''body''))
   \<and> performed_before is_cache_check is_verification
        (POST_trace (env_parsing (callback mention_event)) emptyCache ''body'' (signed_headers ''body''))"
proof -
  have ty: "p_type (callback mention_event) = Some ''event_callback''"
    and ev: "p_event (callback mention_event) = Some mention_event"
    and t: "truthy (p_event_id (callback mention_event))"
    by (simp_all add: callback_def truthy_def)
  have p: "JSON_parse (env_parsing (callback mention_event))
      (rawBody_of (env_parsing (callback mention_event)) (signed_request ''body''))
     = Inr (JPayload (callback mention_event))"
    by (simp add: env_parsing_def)
  have p': "JSON_parse (env_parsing (callback mention_event)) ''body''
     = Inr (JPayload (callback mention_event))"
    by (simp add: env_parsing_def)
  have tr: "trace_of (env_parsing (callback mention_event)) emptyCache (signed_request ''body'')
     = [DedupCacheCheck ''Ev1'', VerifyRequest, GetBotId, HistoryCheck, Invoke AppMention,
        Effect (PostMessage (Some ''C1'') (Some ''100'') ''answer'')]"
    by (simp add: trace_of_def run_mention)
  have tr': "POST_trace (env_parsing (callback mention_event)) emptyCache ''body'' (signed_headers ''body'')
     = [DedupCacheCheck ''Ev1'', VerifyRequest, GetBotId, HistoryCheck, Invoke AppMention]"
    by (simp add: POST_trace_def run_POST_mention)
  from pipeline_order [of "env_parsing (callback mention_event)" emptyCache
         "signed_request ''body''" "''body''" "signed_headers ''body''"
         "callback mention_event" mention_event] ty ev t p p' tr tr'
  show ?thesis by blast
qed

text \<open>A mention that carries no signature: it is refused, after its identifier was recorded.\<close>

lemma run_forged:
  "handler (env_parsing (callback mention_event)) emptyCache (unsigned_request ''body'')
   = (text_response 200 ''Verification failed, but returning 200 to avoid retries'',
      [DedupCacheCheck ''Ev1'', VerifyRequest],
      \<lparr>processedEvents = {''Ev1''}, processedEventsQueue = [''Ev1'']\<rparr>)"
  by (simp add: router_defs demo_defs Let_def)

text \<open>The signed mention arriving after it: it is taken for a duplicate.\<close>

lemma run_after_forged:
  "handler (env_parsing (callback mention_event))
      \<lparr>processedEvents = {''Ev1''}, processedEventsQueue = [''Ev1'']\<rparr> (signed_request ''body'')
   = (text_response 200 ''Event already processed'',
      [DedupCacheCheck ''Ev1''],
      \<lparr>processedEvents = {''Ev1''}, processedEventsQueue = [''Ev1'']\<rparr>)"
  by (simp add: router_defs demo_defs Let_def)

text \<open>
  C3, evaluated where the code departs from it. On the signed mention the dedup-cache
  check is the first step of the trace, in the handler and in the older route, with no
  signature verification before it. So a request for the same mention without a signature
  is refused by the verification only after its identifier has been recorded, and the
  signed delivery that follows is answered "Event already processed": for it the router
  performs no signature verification, no history-based check and no dispatch. The rest
  of the stated order (dedup-cache check, then history-based check, then dispatch) is
  what the first trace shows.
\<close>

theorem C3_cache_check_before_verification:
  "trace_of (env_parsing (callback mention_event)) emptyCache (signed_request ''body'')
     = [DedupCacheCheck ''Ev1'', VerifyRequest, GetBotId, HistoryCheck, Invoke AppMention,
        Effect (PostMessage (Some ''C1'') (Some ''100'') ''answer'')]
   \<and> \<not> performed_before is_verification is_cache_check
        (trace_of (env_parsing (callback mention_event)) emptyCache (signed_request ''body''))
   \<and> POST_trace (env_parsing (callback mention_event)) emptyCache ''body'' (signed_headers ''body'')
     = [DedupCacheCheck ''Ev1'', VerifyRequest, GetBotId, HistoryCheck, Invoke AppMention]
   \<and> \<not> performed_before is_verification is_cache_check
        (POST_trace (env_parsing (callback mention_event)) emptyCache ''body'' (signed_headers ''body''))
   \<and> handler (env_parsing (callback mention_event)) emptyCache (unsigned_request ''body'')
     = (text_response 200 ''Verification failed, but returning 200 to avoid retries'',
        [DedupCacheCheck ''Ev1'', VerifyRequest],
        \<lparr>processedEvents = {''Ev1''}, processedEventsQueue = [''Ev1'']\<rparr>)
   \<and> handler (env_parsing (callback mention_event))
        (snd (snd (handler (env_parsing (callback mention_event)) emptyCache
                     (unsigned_request ''body''))))
        (signed_request ''body'')
     = (text_response 200 ''Event already processed'',
        [DedupCacheCheck ''Ev1''],
        \<lparr>processedEvents = {''Ev1''}, processedEventsQueue = [''Ev1'']\<rparr>)"
  by (simp add: trace_of_def POST_trace_def run_mention run_POST_mention run_forged
        run_after_forged is_verification_def is_cache_check_def)


subsection \<open>Timeouts and errors of the handlers\<close>

text \<open>
  In the mention branch the router posts the apology to the thread of the event when the
  handler loses the race or throws.
\<close>

lemma mention_apology:
  assumes "ev_type slackEvent = Some ''app_mention''"
    and "ev_channel slackEvent = Some channel" and "ev_ts slackEvent = Some ts"
    and "race (run_handleNewAppMention env slackEvent botUserId) timeoutMs = Inl error"
  shows "last (dispatch env slackEvent botUserId timeoutMs)
           = Effect (PostMessage (Some channel) (thread_or_ts slackEvent) APOLOGY_TEXT)"
  using assms by (simp add: dispatch_def Let_def isMessageEvent_def)

text \<open>The signed mention whose handler loses the race against the 160 s timer.\<close>

lemma mention_apology_witness:
  "race (run_handleNewAppMention slow_mention_env mention_event ''U1'') 160000
     = Inl (TimeoutError 160000)
   \<and> last (dispatch slow_mention_env mention_event ''U1'' 160000)
     = Effect (PostMessage (Some ''C1'') (Some ''100'') APOLOGY_TEXT)"
proof -
  have r: "race (run_handleNewAppMention slow_mention_env mention_event ''U1'') 160000
     = Inl (TimeoutError 160000)"
    by (simp add: race_def demo_defs)
  have t: "thread_or_ts mention_event = Some ''100''"
    by (simp add: thread_or_ts_def truthy_def demo_defs)
  from mention_apology [of mention_event "''C1''" "''100''" slow_mention_env "''U1''" 160000
         "TimeoutError 160000"] r t
  show ?thesis by (simp add: demo_defs)
qed

text \<open>
  In the direct-message branch and in the assistant-thread branch the router adds nothing
  to what the handler did, whatever the outcome of the race.
\<close>

lemma dm_dispatch_adds_nothing:
  "isDirectMessage slackEvent botUserId
   \<Longrightarrow> dispatch env slackEvent botUserId timeoutMs
         = Invoke DirectMessage
             # map Effect (dm_run_effects env (handleNewAssistantMessage env slackEvent botUserId)
                             timeoutMs)"
  by (auto simp: dispatch_def isDirectMessage_def)

lemma assistant_dispatch_adds_nothing:
  "ev_type slackEvent = Some ''assistant_thread_started''
   \<Longrightarrow> dispatch env slackEvent botUserId timeoutMs
         = Invoke AssistantThreadStarted
             # map Effect (effects (run_assistantThreadMessage env slackEvent))"
  by (simp add: dispatch_def)

text \<open>
  C8, evaluated where the code departs from it. A signed direct message in a thread whose
  handler is not done after 160 s: the race ends with the timer's error, the answer is
  HTTP 200, and the trace ends with the handler's own status message, no apology
  follows. The same message with a response generator that throws: HTTP 200, and the trace
  ends with the call of the generator. A signed mention whose handler is not done after
  160 s: HTTP 200, and the router posts the apology to the thread.
\<close>

theorem C8_no_apology_for_direct_message:
  "race (handleNewAssistantMessage slow_dm_env dm_thread_event ''U1'') 160000
     = Inl (TimeoutError 160000)
   \<and> handler slow_dm_env emptyCache (signed_request ''body'')
     = (text_response 200 COMPLETED_TEXT,
        [DedupCacheCheck ''Ev1'', VerifyRequest, GetBotId, HistoryCheck, Invoke DirectMessage,
         Effect (PostMessage (Some ''D1'') (Some ''90'') ''is thinking...'')],
        \<lparr>processedEvents = {''Ev1''}, processedEventsQueue = [''Ev1'']\<rparr>)
   \<and> race (handleNewAssistantMessage throwing_dm_env dm_thread_event ''U1'') 160000
     = Inl (ApiError ''overloaded'')
   \<and> handler throwing_dm_env emptyCache (signed_request ''body'')
     = (text_response 200 COMPLETED_TEXT,
        [DedupCacheCheck ''Ev1'', VerifyRequest, GetBotId, HistoryCheck, Invoke DirectMessage,
         Effect (PostMessage (Some ''D1'') (Some ''90'') ''is thinking...''),
         Effect (FetchThread (Some ''D1'') ''90'' 50),
         Effect GenerateResponse],
        \<lparr>processedEvents = {''Ev1''}, processedEventsQueue = [''Ev1'']\<rparr>)
   \<and> handler slow_mention_env emptyCache (signed_request ''body'')
     = (text_response 200 COMPLETED_TEXT,
        [DedupCacheCheck ''Ev1'', VerifyRequest, GetBotId, HistoryCheck, Invoke AppMention,
         Effect (PostMessage (Some ''C1'') (Some ''100'') APOLOGY_TEXT)],
        \<lparr>processedEvents = {''Ev1''}, processedEventsQueue = [''Ev1'']\<rparr>)"
proof -
  have r1: "race (handleNewAssistantMessage slow_dm_env dm_thread_event ''U1'') 160000
     = Inl (TimeoutError 160000)"
    by (simp add: race_def handleNewAssistantMessage_def truthy_def Let_def demo_defs)
  have r2: "race (handleNewAssistantMessage throwing_dm_env dm_thread_event ''U1'') 160000
     = Inl (ApiError ''overloaded'')"
    by (simp add: race_def handleNewAssistantMessage_def truthy_def Let_def demo_defs)
  from r1 r2 run_slow_dm run_throwing_dm run_slow_mention show ?thesis by simp
qed

subsection \<open>Direct messages outside a thread\<close>

lemma early_return:
  "\<not> truthy (ev_thread_ts event)
   \<Longrightarrow> handleNewAssistantMessage env event botUserId
         = \<lparr>duration_ms = 0, outcome = Inr (), effects = []\<rparr>"
  by (simp add: handleNewAssistantMessage_def)

lemma dispatch_message_no_thread:
  "ev_type event = Some ''message'' \<Longrightarrow> \<not> truthy (ev_thread_ts event)
   \<Longrightarrow> dispatch env event botUserId timeoutMs
         = (if isDirectMessage event botUserId then [Invoke DirectMessage] else [])"
  by (simp add: dispatch_def early_return dm_run_effects_def)

lemma processEvent_message_no_thread:
  assumes "ev_type event = Some ''message''" and "\<not> truthy (ev_thread_ts event)"
  shows "list_all (\<lambda>a. stage a < 5) (snd (processEvent env req requestType event rawBody))"
  using assms
  by (auto simp: processEvent_def Let_def historyStep_def dispatch_message_no_thread
           split: sum.splits)

lemma dedupStep_no_effect: "list_all (\<lambda>a. stage a < 5) (fst (snd (dedupStep payload c)))"
  by (simp add: dedupStep_def Let_def split: option.splits)

text \<open>
  C10. For every event without a (non-empty) \<^verbatim>\<open>thread_ts\<close>,
  \<open>handleNewAssistantMessage\<close> returns at once, without an error and without any effect:
  no reply, no status message, no call at all. When the event passes the conditions of
  the direct-message branch, the dispatch consists of the invocation alone. And a request
  that carries such a message event is answered with HTTP 200 by the Lambda handler, its
  trace holding steps of the pipeline only and no effect of a handler or of the router.
\<close>

theorem C10_top_level_dm_dropped:
  assumes "\<not> truthy (ev_thread_ts event)"
  shows "handleNewAssistantMessage env event botUserId
           = \<lparr>duration_ms = 0, outcome = Inr (), effects = []\<rparr>
       \<and> (isDirectMessage event botUserId
            \<longrightarrow> dispatch env event botUserId timeoutMs = [Invoke DirectMessage])
       \<and> (ev_type event = Some ''message''
            \<and> JSON_parse env (rawBody_of env req) = Inr (JPayload payload)
            \<and> p_event payload = Some event
            \<longrightarrow> list_all (\<lambda>a. stage a < 5) (trace_of env c req)
                \<and> statusCode (fst (handler env c req)) = 200)"
proof (intro conjI impI)
  show "handleNewAssistantMessage env event botUserId
           = \<lparr>duration_ms = 0, outcome = Inr (), effects = []\<rparr>"
    using assms by (rule early_return)
next
  assume "isDirectMessage event botUserId"
  then show "dispatch env event botUserId timeoutMs = [Invoke DirectMessage]"
    using assms by (simp add: dispatch_message_no_thread isDirectMessage_def)
next
  assume a: "ev_type event = Some ''message''
            \<and> JSON_parse env (rawBody_of env req) = Inr (JPayload payload)
            \<and> p_event payload = Some event"
  with assms dedupStep_no_effect [of payload c]
  show "list_all (\<lambda>a. stage a < 5) (trace_of env c req)"
    by (simp add: trace_of_def handler_def Let_def processEvent_message_no_thread)
next
  assume a: "ev_type event = Some ''message''
            \<and> JSON_parse env (rawBody_of env req) = Inr (JPayload payload)
            \<and> p_event payload = Some event"
  then show "statusCode (fst (handler env c req)) = 200"
    by (simp add: handler_payload_status)
qed

text \<open>The theorem at the signed direct message at the top level.\<close>

theorem C10_top_level_dm_dropped_witness:
  "\<not> truthy (ev_thread_ts dm_event)
   \<and> isDirectMessage dm_event ''U1''
   \<and> handleNewAssistantMessage (env_parsing (callback dm_event)) dm_event ''U1''
       = \<lparr>duration_ms = 0, outcome = Inr (), effects = []\<rparr>
   \<and> dispatch (env_parsing (callback dm_event)) dm_event ''U1'' 160000 = [Invoke DirectMessage]
   \<and> trace_of (env_parsing (callback dm_event)) emptyCache (signed_request ''body'')
       = [DedupCacheCheck ''Ev1'', VerifyRequest, GetBotId, HistoryCheck, Invoke DirectMessage]
   \<and> list_all (\<lambda>a. stage a < 5)
        (trace_of (env_parsing (callback dm_event)) emptyCache (signed_request ''body''))
   \<and> statusCode (fst (handler (env_parsing (callback dm_event)) emptyCache (signed_request ''body''))) = 200"
proof -
  have nt: "\<not> truthy (ev_thread_ts dm_event)"
    by (simp add: dm_event_def blank_event_def truthy_def)
  have dm: "isDirectMessage dm_event ''U1''"
    by (simp add: isDirectMessage_def dm_event_def blank_event_def truthy_def)
  have ty: "ev_type dm_event = Some ''message''"
    by (simp add: dm_event_def blank_event_def)
  have p: "JSON_parse (env_parsing (callback dm_event))
             (rawBody_of (env_parsing (callback dm_event)) (signed_request ''body''))
           = Inr (JPayload (callback dm_event))"
    by (simp add: env_parsing_def)
  have ev: "p_event (callback dm_event) = Some dm_event"
    by (simp add: callback_def)
  have tr: "trace_of (env_parsing (callback dm_event)) emptyCache (signed_request ''body'')
       = [DedupCacheCheck ''Ev1'', VerifyRequest, GetBotId, HistoryCheck, Invoke DirectMessage]"
    by (simp add: trace_of_def run_top_level_dm)
  from C10_top_level_dm_dropped [OF nt, of "env_parsing (callback dm_event)" "''U1''" 160000
         "signed_request ''body''" "callback dm_event" emptyCache]
    nt dm ty p ev tr
  show ?thesis by simp
qed

end
